theory Spec2Isabelle
  imports Main "HOL-Library.Sublist"
begin

section \<open>Python values used by the orchestration core\<close>

text \<open>
  The orchestration core of garage-mcp lives in three modules:
  \<^verbatim>\<open>services/mcp/modules/orchestra_runner.py\<close> (the runner and the step executor),
  \<^verbatim>\<open>services/mcp/modules/orchestra.py\<close> (identifier validation and the agent delegate) and
  \<^verbatim>\<open>services/mcp/modules/error_sink.py\<close> (the error-record builder).
  A string is the UTF-8 text of a Python \<^verbatim>\<open>str\<close>. What Python computes on code points
  (\<^verbatim>\<open>str.lower\<close>, \<^verbatim>\<open>len\<close> of a string, \<^verbatim>\<open>str(result)[:200]\<close>, \<^verbatim>\<open>re.match\<close>) is not
  defined here: it is taken from the environment record \<open>env\<close> below, so that every
  theorem stated for all environments holds of Python's own functions.
\<close>

datatype jval =
    JNone
  | JBool bool
  | JInt int
  | JStr string
  | JList "jval list"
  | JDict "(string \<times> jval) list"

type_synonym jdict = "(string \<times> jval) list"

text \<open>\<^verbatim>\<open>d.get(k, default)\<close> on a dict kept as an association list.\<close>

definition dict_get :: "jdict \<Rightarrow> string \<Rightarrow> jval \<Rightarrow> jval" where
  "dict_get d k dflt = (case map_of d k of None \<Rightarrow> dflt | Some v \<Rightarrow> v)"

text \<open>\<^verbatim>\<open>d[k] = v\<close>: an existing key keeps its position, a new key goes last.\<close>

fun dict_set :: "jdict \<Rightarrow> string \<Rightarrow> jval \<Rightarrow> jdict" where
  "dict_set [] k v = [(k, v)]"
| "dict_set ((k', v') # d) k v = (if k' = k then (k, v) # d else (k', v') # dict_set d k v)"

text \<open>\<^verbatim>\<open>d.update(other)\<close>.\<close>

definition dict_update :: "jdict \<Rightarrow> jdict \<Rightarrow> jdict" where
  "dict_update d other = fold (\<lambda>(k, v) acc. dict_set acc k v) other d"

text \<open>Truthiness of a value, as \<^verbatim>\<open>if v:\<close> tests it.\<close>

fun truthy :: "jval \<Rightarrow> bool" where
  "truthy JNone = False"
| "truthy (JBool b) = b"
| "truthy (JInt i) = (i \<noteq> 0)"
| "truthy (JStr s) = (s \<noteq> [])"
| "truthy (JList xs) = (xs \<noteq> [])"
| "truthy (JDict d) = (d \<noteq> [])"

text \<open>
  Case folding of ASCII letters: on a string of ASCII characters this is what
  \<^verbatim>\<open>str.lower\<close> returns. It serves the sample environment and the comparison of ASCII
  agent ids; the model of the source uses \<open>str_lower\<close> of the environment.
\<close>

definition lower_char :: "char \<Rightarrow> char" where
  "lower_char c =
     (case map_of (zip ''ABCDEFGHIJKLMNOPQRSTUVWXYZ'' ''abcdefghijklmnopqrstuvwxyz'') c of
        Some d \<Rightarrow> d
      | None \<Rightarrow> c)"

definition lower :: "string \<Rightarrow> string" where
  "lower s = map lower_char s"

text \<open>\<^verbatim>\<open>needle in hay\<close> on strings: \<open>needle\<close> occurs as a contiguous block of \<open>hay\<close>.\<close>

fun py_in :: "string \<Rightarrow> string \<Rightarrow> bool" where
  "py_in needle [] = (needle = [])"
| "py_in needle (c # cs) = (prefix needle (c # cs) \<or> py_in needle cs)"

text \<open>An exception is seen by the core through \<^verbatim>\<open>type(e).__name__\<close> and \<^verbatim>\<open>str(e)\<close> only.\<close>

record exn =
  exn_type :: string
  exn_msg :: string

datatype 'a outcome = Returned 'a | Raised exn

section \<open>Agent dispatch (orchestra.py)\<close>

datatype category =
  Orchestrator | Mapper | Validator | Db | Enforcer | Notifier | Reporter | Generic

text \<open>The \<^verbatim>\<open>if\<close>/\<^verbatim>\<open>elif\<close> chain of \<^verbatim>\<open>_delegate_to_agent\<close>, in its order.\<close>

definition agent_category :: "string \<Rightarrow> category" where
  "agent_category agent_id =
     (if py_in ''orchestrator'' agent_id then Orchestrator
      else if py_in ''mapper'' agent_id then Mapper
      else if py_in ''validator'' agent_id then Validator
      else if py_in ''db'' agent_id then Db
      else if py_in ''enforcer'' agent_id then Enforcer
      else if py_in ''notifier'' agent_id then Notifier
      else if py_in ''reporter'' agent_id then Reporter
      else Generic)"

section \<open>Identifier patterns (orchestra.py)\<close>

text \<open>
  A pattern is a sequence of bounded repetitions of character classes, anchored at the
  start by \<^verbatim>\<open>re.match\<close> and closed by \<^verbatim>\<open>$\<close>. \<open>(c, lo, hi)\<close> stands for between \<open>lo\<close>
  and \<open>hi\<close> characters of class \<open>c\<close>; \<open>hi = None\<close> is unbounded. The classes are a
  literal character, \<^verbatim>\<open>[a-z0-9_]\<close> and \<^verbatim>\<open>\d\<close>. Matching itself is \<^verbatim>\<open>re.match\<close>, a
  function of the environment.
\<close>

datatype rx_class = Lit char | Slug | Digit

type_synonym rx_item = "rx_class \<times> nat \<times> nat option"

definition rx_lit :: "string \<Rightarrow> rx_item list" where
  "rx_lit s = map (\<lambda>c. (Lit c, 1, Some 1)) s"

text \<open>\<^verbatim>\<open>^PROC-[a-z0-9_]+-\d{8}-\d{6}-\d{3,6}$\<close>\<close>

definition process_id_pattern :: "rx_item list" where
  "process_id_pattern =
     rx_lit ''PROC-'' @ [(Slug, 1, None)] @ rx_lit ''-'' @ [(Digit, 8, Some 8)] @
     rx_lit ''-'' @ [(Digit, 6, Some 6)] @ rx_lit ''-'' @ [(Digit, 3, Some 6)]"

text \<open>\<^verbatim>\<open>^IDEM-PROC-[a-z0-9_]+-\d{8}-\d{6}-\d{3,6}$\<close>\<close>

definition idem_pattern :: "rx_item list" where
  "idem_pattern = rx_lit ''IDEM-'' @ process_id_pattern"

text \<open>
  A matcher for strings of ASCII characters, on which \<^verbatim>\<open>\d\<close> is \<^verbatim>\<open>0\<close> to \<^verbatim>\<open>9\<close>:
  the sample environment uses it. \<^verbatim>\<open>$\<close> accepts the end of the string or one final
  newline.
\<close>

definition ascii_class :: "rx_class \<Rightarrow> char \<Rightarrow> bool" where
  "ascii_class c d =
     (case c of
        Lit x \<Rightarrow> d = x
      | Digit \<Rightarrow> d \<in> set ''0123456789''
      | Slug \<Rightarrow> d \<in> set ''abcdefghijklmnopqrstuvwxyz0123456789_'')"

fun ascii_rx_match :: "rx_item list \<Rightarrow> string \<Rightarrow> bool" where
  "ascii_rx_match [] s = (s = [] \<or> s = [CHR 0x0A])"
| "ascii_rx_match ((p, lo, hi) # items) s =
     (if 0 < lo then
        (case s of [] \<Rightarrow> False
         | c # cs \<Rightarrow>
             ascii_class p c \<and>
             ascii_rx_match ((p, lo - 1, map_option (\<lambda>h. h - 1) hi) # items) cs)
      else
        (ascii_rx_match items s \<or>
         (hi \<noteq> Some 0 \<and>
          (case s of [] \<Rightarrow> False
           | c # cs \<Rightarrow>
               ascii_class p c \<and>
               ascii_rx_match ((p, 0, map_option (\<lambda>h. h - 1) hi) # items) cs))))"

section \<open>Plans, steps and the HDO\<close>

record retry_cfg =
  max_retries :: "int option"
  retry_on :: "string list option"
  backoff_seconds :: "nat option"

record when_cfg =
  condition :: "string option"
  depends_on :: "string list option"
  expression :: "string option"

text \<open>
  A step is read with \<^verbatim>\<open>step['step_id']\<close>, \<^verbatim>\<open>step['agent_id']\<close>, \<^verbatim>\<open>step['action']\<close> and
  \<^verbatim>\<open>step['altitude']\<close> (required keys) and with \<^verbatim>\<open>step.get\<close> for the others
  (optional keys, \<open>None\<close> when absent).
\<close>

record step =
  step_id :: string
  agent_id :: string
  action :: string
  altitude :: int
  parameters :: "jdict option"
  timeout_seconds :: "int option"
  when_config :: "when_cfg option"
  retry_policy :: "retry_cfg option"

record plan =
  plan_id :: string
  version :: string
  steps :: "step list"

text \<open>A log entry; \<open>timestamp\<close> is the instant whose ISO-8601 text the source stores.\<close>

record log_entry =
  timestamp :: nat
  entry_agent_id :: string
  entry_action :: string
  status :: string
  duration_ms :: "int option"
  entry_error_id :: "string option"
  details :: jdict

record error_ctx =
  last_error_id :: "string option"
  error_count :: int
  retry_count :: int
  ctx_max_retries :: int

text \<open>The \<^verbatim>\<open>meta\<close> mapping: the keys the core reads, and the others in \<open>meta_other\<close>.\<close>

record meta_dict =
  idempotency_key :: "string option"
  altitude_trace :: "jdict option"
  error_context :: "error_ctx option"
  meta_plan_id :: "string option"
  meta_plan_version :: "string option"
  meta_other :: jdict

definition empty_meta :: meta_dict where
  "empty_meta =
     \<lparr>idempotency_key = None, altitude_trace = None, error_context = None,
      meta_plan_id = None, meta_plan_version = None, meta_other = []\<rparr>"

text \<open>\<^verbatim>\<open>m.update(patch)\<close>: the keys of the patch replace those of \<open>m\<close>.\<close>

definition meta_merge :: "meta_dict \<Rightarrow> meta_dict \<Rightarrow> meta_dict" where
  "meta_merge m patch =
     \<lparr>idempotency_key =
        (case idempotency_key patch of None \<Rightarrow> idempotency_key m | Some v \<Rightarrow> Some v),
      altitude_trace =
        (case altitude_trace patch of None \<Rightarrow> altitude_trace m | Some v \<Rightarrow> Some v),
      error_context =
        (case error_context patch of None \<Rightarrow> error_context m | Some v \<Rightarrow> Some v),
      meta_plan_id = (case meta_plan_id patch of None \<Rightarrow> meta_plan_id m | Some v \<Rightarrow> Some v),
      meta_plan_version =
        (case meta_plan_version patch of None \<Rightarrow> meta_plan_version m | Some v \<Rightarrow> Some v),
      meta_other = dict_update (meta_other m) (meta_other patch)\<rparr>"

text \<open>
  The HDO is a dict whose \<^verbatim>\<open>log\<close>, \<^verbatim>\<open>meta\<close> and \<^verbatim>\<open>payload\<close> values are mutable objects:
  the top-level dict holds references to them, and the objects live in the store of the
  state below. An absent key is \<open>None\<close>.
\<close>

record hdo =
  process_id :: string
  blueprint_id :: "string option"
  stage :: "string option"
  validated :: "bool option"
  promoted_to :: "string option"
  payload :: "nat option"
  meta :: "nat option"
  log :: "nat option"
  timestamp_last_touched :: "nat option"

record hdo_updates =
  upd_payload :: "jdict option"
  upd_meta :: "meta_dict option"
  upd_stage :: "string option"
  upd_validated :: "bool option"
  upd_promoted_to :: "string option option"

definition no_updates :: hdo_updates where
  "no_updates =
     \<lparr>upd_payload = None, upd_meta = None, upd_stage = None, upd_validated = None,
      upd_promoted_to = None\<rparr>"

text \<open>The dict an agent returns: its \<^verbatim>\<open>hdo_updates\<close> entry and its other entries.\<close>

record agent_result =
  res_fields :: jdict
  res_hdo_updates :: "hdo_updates option"

text \<open>
  The fields of an error record that the core computes from its arguments. The stack trace,
  the HDO snapshot, the context extract and the version metadata are diagnostic payload and
  are not modelled.
\<close>

record error_record =
  error_id :: string
  occurred_at :: nat
  err_process_id :: string
  err_blueprint_id :: string
  err_plan_id :: string
  err_plan_version :: string
  err_agent_id :: string
  err_stage :: string
  severity :: string
  message :: string
  error_type :: string

text \<open>
  The library functions the core calls: the \<open>n\<close>-th value of \<^verbatim>\<open>uuid.uuid4()\<close> as text,
  \<^verbatim>\<open>str\<close> of a value, \<^verbatim>\<open>str(result)[:200]\<close> of an agent result,
  \<^verbatim>\<open>strftime('%Y%m%d_%H%M%S')\<close> of an instant, \<^verbatim>\<open>str.lower\<close>, \<^verbatim>\<open>len\<close> of a string, and
  whether \<^verbatim>\<open>re.match(pattern, text)\<close> finds a match.
\<close>

record env =
  uuid4 :: "nat \<Rightarrow> string"
  str_value :: "jval \<Rightarrow> string"
  str_result_200 :: "agent_result \<Rightarrow> string"
  strftime :: "nat \<Rightarrow> string"
  str_lower :: "string \<Rightarrow> string"
  str_len :: "string \<Rightarrow> nat"
  re_match :: "rx_item list \<Rightarrow> string \<Rightarrow> bool"

text \<open>
  The state: the runner's two attributes, the store of list and dict objects with its
  allocation counter, the clock in milliseconds (advanced by \<^verbatim>\<open>asyncio.sleep\<close>), the
  number of UUIDs drawn, and every error record handed to the error log, oldest first.
\<close>

record state =
  current_hdo :: hdo
  current_plan :: plan
  logs :: "nat \<Rightarrow> log_entry list"
  metas :: "nat \<Rightarrow> meta_dict"
  payloads :: "nat \<Rightarrow> jdict"
  next_ref :: nat
  clock :: nat
  uuid_calls :: nat
  error_log :: "error_record list"

definition key_error :: "string \<Rightarrow> exn" where
  "key_error k = \<lparr>exn_type = ''KeyError'', exn_msg = [CHR 0x27] @ k @ [CHR 0x27]\<rparr>"

definition value_error :: "string \<Rightarrow> exn" where
  "value_error m = \<lparr>exn_type = ''ValueError'', exn_msg = m\<rparr>"

definition runtime_error :: "string \<Rightarrow> exn" where
  "runtime_error m = \<lparr>exn_type = ''RuntimeError'', exn_msg = m\<rparr>"

text \<open>\<^verbatim>\<open>self.current_hdo.get('log', [])\<close>\<close>

definition the_log :: "state \<Rightarrow> log_entry list" where
  "the_log s = (case log (current_hdo s) of None \<Rightarrow> [] | Some r \<Rightarrow> logs s r)"

text \<open>\<^verbatim>\<open>self.current_hdo['log'].append(entry)\<close>\<close>

definition log_append :: "log_entry \<Rightarrow> state \<Rightarrow> unit outcome \<times> state" where
  "log_append e s =
     (case log (current_hdo s) of
        None \<Rightarrow> (Raised (key_error ''log''), s)
      | Some r \<Rightarrow> (Returned (), s\<lparr>logs := (logs s)(r := logs s r @ [e])\<rparr>))"

text \<open>\<^verbatim>\<open>self.current_hdo['timestamp_last_touched'] = t\<close>\<close>

definition touch :: "nat \<Rightarrow> state \<Rightarrow> state" where
  "touch t s = s\<lparr>current_hdo := (current_hdo s)\<lparr>timestamp_last_touched := Some t\<rparr>\<rparr>"

text \<open>
  The two statements every recording function ends with: the entry is appended to the log
  and \<^verbatim>\<open>timestamp_last_touched\<close> is set.
\<close>

definition append_and_touch :: "log_entry \<Rightarrow> nat \<Rightarrow> state \<Rightarrow> unit outcome \<times> state" where
  "append_and_touch e t s =
     (case log_append e s of
        (Raised x, s1) \<Rightarrow> (Raised x, s1)
      | (Returned u, s1) \<Rightarrow> (Returned (), touch t s1))"

text \<open>\<^verbatim>\<open>await asyncio.sleep(seconds)\<close>, in milliseconds.\<close>

definition sleep_ms :: "nat \<Rightarrow> state \<Rightarrow> state" where
  "sleep_ms d s = s\<lparr>clock := clock s + d\<rparr>"

section \<open>Error severity (error\_sink.py)\<close>

definition critical_keywords :: "string list" where
  "critical_keywords =
     [''database connection'', ''authentication failed'', ''permission denied'',
      ''out of memory'', ''disk full'']"

definition high_keywords :: "string list" where
  "high_keywords =
     [''timeout'', ''network error'', ''service unavailable'',
      ''invalid data'', ''validation failed'']"

text \<open>
  \<^verbatim>\<open>_determine_error_severity(err, ctx)\<close>; the context is not read. The message is
  lower-cased by \<^verbatim>\<open>str.lower\<close>, the keywords are ASCII.
\<close>

definition determine_error_severity :: "env \<Rightarrow> exn \<Rightarrow> string" where
  "determine_error_severity E err =
     (let error_type = exn_type err;
          error_message = str_lower E (exn_msg err)
      in if list_ex (\<lambda>keyword. py_in keyword error_message) critical_keywords then ''critical''
         else if list_ex (\<lambda>keyword. py_in keyword error_message) high_keywords then ''high''
         else if error_type \<in> set [''ValueError'', ''KeyError'', ''AttributeError''] then ''medium''
         else if error_type \<in> set [''Warning'', ''UserWarning''] then ''low''
         else ''high'')"

text \<open>The severity policy in the words of the specification, rule by rule.\<close>

definition msg_mentions :: "env \<Rightarrow> exn \<Rightarrow> string \<Rightarrow> bool" where
  "msg_mentions E err phrase = py_in phrase (str_lower E (exn_msg err))"

definition rule_critical :: "env \<Rightarrow> exn \<Rightarrow> bool" where
  "rule_critical E err =
     (msg_mentions E err ''database connection'' \<or> msg_mentions E err ''authentication failed'' \<or>
      msg_mentions E err ''permission denied'' \<or> msg_mentions E err ''out of memory'' \<or>
      msg_mentions E err ''disk full'')"

definition rule_high :: "env \<Rightarrow> exn \<Rightarrow> bool" where
  "rule_high E err =
     (msg_mentions E err ''timeout'' \<or> msg_mentions E err ''network error'' \<or>
      msg_mentions E err ''service unavailable'' \<or> msg_mentions E err ''invalid data'' \<or>
      msg_mentions E err ''validation failed'')"

definition rule_medium :: "exn \<Rightarrow> bool" where
  "rule_medium err =
     (exn_type err = ''ValueError'' \<or> exn_type err = ''KeyError'' \<or>
      exn_type err = ''AttributeError'')"

definition rule_low :: "exn \<Rightarrow> bool" where
  "rule_low err = (exn_type err = ''Warning'' \<or> exn_type err = ''UserWarning'')"

definition severity_policy :: "env \<Rightarrow> exn \<Rightarrow> string" where
  "severity_policy E err =
     (if rule_critical E err then ''critical''
      else if rule_high E err then ''high''
      else if rule_medium err then ''medium''
      else if rule_low err then ''low''
      else ''high'')"

section \<open>The error-record builder (error\_sink.py)\<close>

text \<open>The \<^verbatim>\<open>current_step\<close> entry that \<^verbatim>\<open>orchestra_invoke\<close> puts into the builder's context.\<close>

record step_ctx =
  cs_step_id :: string
  cs_agent_id :: string
  cs_action :: string
  cs_altitude :: int

definition map_altitude_to_stage :: "env \<Rightarrow> int \<Rightarrow> string" where
  "map_altitude_to_stage E a =
     (if a = 30000 then ''overall''
      else if a = 20000 then ''input''
      else if a = 10000 then ''middle''
      else if a = 5000 then ''output''
      else ''altitude_'' @ str_value E (JInt a))"

text \<open>\<^verbatim>\<open>hdo.get('meta', {})\<close>\<close>

definition meta_of :: "state \<Rightarrow> hdo \<Rightarrow> meta_dict" where
  "meta_of s h = (case meta h of None \<Rightarrow> empty_meta | Some r \<Rightarrow> metas s r)"

definition or_unknown :: "string option \<Rightarrow> string" where
  "or_unknown v = (case v of None \<Rightarrow> ''unknown'' | Some x \<Rightarrow> x)"

text \<open>
  \<^verbatim>\<open>build_error_record(hdo, ctx, err)\<close>. The context is given by its \<^verbatim>\<open>current_step\<close>
  entry, if any; the runner calls the builder with an empty context. Every call draws a
  fresh UUID.
\<close>

definition build_error_record ::
  "env \<Rightarrow> hdo \<Rightarrow> step_ctx option \<Rightarrow> exn \<Rightarrow> state \<Rightarrow> error_record \<times> state" where
  "build_error_record E h ctx err s =
     (let new_id = uuid4 E (uuid_calls s);
          s1 = s\<lparr>uuid_calls := Suc (uuid_calls s)\<rparr>
      in (\<lparr>error_id = new_id,
           occurred_at = clock s,
           err_process_id = process_id h,
           err_blueprint_id = or_unknown (blueprint_id h),
           err_plan_id = or_unknown (meta_plan_id (meta_of s h)),
           err_plan_version = or_unknown (meta_plan_version (meta_of s h)),
           err_agent_id = (case ctx of None \<Rightarrow> ''unknown'' | Some c \<Rightarrow> cs_agent_id c),
           err_stage =
             (case ctx of None \<Rightarrow> or_unknown (stage h)
              | Some c \<Rightarrow> map_altitude_to_stage E (cs_altitude c)),
           severity = determine_error_severity E err,
           message = exn_msg err,
           error_type = exn_type err\<rparr>, s1))"

text \<open>\<^verbatim>\<open>_insert_error_record\<close>, of both modules: the record goes to the error log.\<close>

definition insert_error_record :: "error_record \<Rightarrow> state \<Rightarrow> state" where
  "insert_error_record r s = s\<lparr>error_log := error_log s @ [r]\<rparr>"

section \<open>The simulated agents (orchestra.py)\<close>

text \<open>A value inside an f-string: a string as it is, anything else through \<^verbatim>\<open>str\<close>.\<close>

definition fmt :: "env \<Rightarrow> jval \<Rightarrow> string" where
  "fmt E v = (case v of JStr t \<Rightarrow> t | _ \<Rightarrow> str_value E v)"

definition get_target_stage :: "string \<Rightarrow> string" where
  "get_target_stage agent =
     (if py_in ''input'' agent then ''input''
      else if py_in ''middle'' agent then ''middle''
      else if py_in ''output'' agent then ''output''
      else ''input'')"

text \<open>
  Each agent takes \<^verbatim>\<open>(agent_id, action, parameters, hdo)\<close> and reads no part of the HDO,
  which is left out. The result dict is built first, then the agent sleeps.
\<close>

definition simulate_orchestrator ::
  "env \<Rightarrow> string \<Rightarrow> string \<Rightarrow> jdict \<Rightarrow> state \<Rightarrow> agent_result outcome \<times> state" where
  "simulate_orchestrator E agent act ps s =
     (Returned
        \<lparr>res_fields =
           [(''status'', JStr ''delegated''),
            (''action_taken'', JStr (''Orchestrator '' @ agent @ '' coordinated '' @ act)),
            (''delegation_plan'', dict_get ps ''subflow'' (JStr ''default_subflow''))],
         res_hdo_updates =
           Some (no_updates\<lparr>upd_stage := Some (get_target_stage agent),
                            upd_validated := Some False\<rparr>)\<rparr>,
      sleep_ms 100 s)"

definition simulate_mapper ::
  "env \<Rightarrow> string \<Rightarrow> string \<Rightarrow> jdict \<Rightarrow> state \<Rightarrow> agent_result outcome \<times> state" where
  "simulate_mapper E agent act ps s =
     (let mapping_schema = dict_get ps ''mapping_schema'' (JStr ''default'')
      in (Returned
            \<lparr>res_fields =
               [(''status'', JStr ''completed''),
                (''action_taken'',
                 JStr (''Mapped client data using schema '' @ fmt E mapping_schema)),
                (''mapped_records'', JInt 42),
                (''normalization_applied'', JBool True)],
             res_hdo_updates =
               Some (no_updates\<lparr>upd_payload := Some
                 [(''mapped_data'', JStr (''normalized_data_from_'' @ fmt E mapping_schema)),
                  (''mapping_metadata'',
                   JDict [(''schema_version'', JStr ''1.0.0''),
                          (''records_processed'', JInt 42)])]\<rparr>)\<rparr>,
          sleep_ms 500 s))"

definition simulate_validator ::
  "env \<Rightarrow> string \<Rightarrow> string \<Rightarrow> jdict \<Rightarrow> state \<Rightarrow> agent_result outcome \<times> state" where
  "simulate_validator E agent act ps s =
     (let validation_schema = dict_get ps ''validation_schema'' (JStr ''default'');
          heir_compliance = dict_get ps ''heir_compliance'' (JBool True);
          validation_passed = True
      in (Returned
            \<lparr>res_fields =
               [(''status'', JStr ''completed''),
                (''action_taken'',
                 JStr (''Validated data against schema '' @ fmt E validation_schema)),
                (''validation_passed'', JBool validation_passed),
                (''heir_compliant'', heir_compliance),
                (''issues_found'', JInt 0)],
             res_hdo_updates =
               Some (no_updates\<lparr>upd_validated := Some validation_passed,
                 upd_payload := Some
                   [(''validation_results'',
                     JDict [(''schema'', validation_schema),
                            (''passed'', JBool validation_passed),
                            (''heir_compliant'', heir_compliance)])]\<rparr>)\<rparr>,
          sleep_ms 300 s))"

text \<open>
  The database agent assigns \<^verbatim>\<open>result\<close> only for the modes \<^verbatim>\<open>plan\<close> and \<^verbatim>\<open>apply\<close>; with
  any other mode \<^verbatim>\<open>return result\<close>, after the sleep, raises \<^verbatim>\<open>UnboundLocalError\<close>.
\<close>

definition simulate_db_agent ::
  "env \<Rightarrow> string \<Rightarrow> string \<Rightarrow> jdict \<Rightarrow> state \<Rightarrow> agent_result outcome \<times> state" where
  "simulate_db_agent E agent act ps s =
     (let mode = dict_get ps ''mode'' (JStr ''plan'')
      in if mode = JStr ''plan'' then
           (Returned
              \<lparr>res_fields =
                 [(''status'', JStr ''completed''),
                  (''action_taken'', JStr ''Created database execution plan''),
                  (''plan_created'', JBool True),
                  (''dry_run_successful'', JBool True),
                  (''rollback_plan_ready'', JBool True),
                  (''estimated_changes'', JInt 3)],
               res_hdo_updates =
                 Some (no_updates\<lparr>upd_payload := Some
                   [(''db_plan'',
                     JDict [(''mode'', JStr ''plan''),
                            (''changes'', JList [JStr ''INSERT client_record'',
                               JStr ''UPDATE status'', JStr ''LOG transaction'']),
                            (''rollback_sql'', JStr ''DELETE FROM clients WHERE id = ?'')])]\<rparr>)\<rparr>,
            sleep_ms 800 s)
         else if mode = JStr ''apply'' then
           (Returned
              \<lparr>res_fields =
                 [(''status'', JStr ''completed''),
                  (''action_taken'', JStr ''Applied planned database changes''),
                  (''transaction_committed'', JBool True),
                  (''records_affected'', JInt 3)],
               res_hdo_updates =
                 Some (no_updates\<lparr>upd_payload := Some
                   [(''db_result'',
                     JDict [(''mode'', JStr ''apply''),
                            (''transaction_id'', JStr ''txn_12345''),
                            (''committed_at'', JInt (int (clock s)))])]\<rparr>)\<rparr>,
            sleep_ms 800 s)
         else
           (Raised \<lparr>exn_type = ''UnboundLocalError'',
                    exn_msg = ''cannot access local variable 'result' where it is not associated with a value''\<rparr>,
            sleep_ms 800 s))"

definition simulate_enforcer ::
  "env \<Rightarrow> string \<Rightarrow> string \<Rightarrow> jdict \<Rightarrow> state \<Rightarrow> agent_result outcome \<times> state" where
  "simulate_enforcer E agent act ps s =
     (let rules_engine = dict_get ps ''rules_engine'' (JStr ''default'');
          promotion_decision = True
      in (Returned
            \<lparr>res_fields =
               [(''status'', JStr ''completed''),
                (''action_taken'', JStr (''Applied business rules using '' @ fmt E rules_engine)),
                (''rules_evaluated'', JInt 5),
                (''violations_found'', JInt 0),
                (''promotion_decision'', JBool promotion_decision)],
             res_hdo_updates =
               Some (no_updates\<lparr>upd_promoted_to :=
                 Some (if promotion_decision then Some ''output'' else None),
                 upd_payload := Some
                   [(''enforcement_result'',
                     JDict [(''rules_engine'', rules_engine),
                            (''promotion_approved'', JBool promotion_decision),
                            (''evaluated_rules'', JList [JStr ''client_eligibility'',
                               JStr ''data_quality'', JStr ''business_hours''])])]\<rparr>)\<rparr>,
          sleep_ms 400 s))"

text \<open>\<^verbatim>\<open>len(v)\<close>: defined on strings, lists and dicts, a \<^verbatim>\<open>TypeError\<close> otherwise.\<close>

definition no_len :: "string \<Rightarrow> exn" where
  "no_len ty =
     \<lparr>exn_type = ''TypeError'',
      exn_msg = ''object of type '' @ [CHR 0x27] @ ty @ [CHR 0x27] @ '' has no len()''\<rparr>"

fun py_len :: "env \<Rightarrow> jval \<Rightarrow> exn + nat" where
  "py_len E (JStr t) = Inr (str_len E t)"
| "py_len E (JList xs) = Inr (length xs)"
| "py_len E (JDict d) = Inr (length d)"
| "py_len E JNone = Inl (no_len ''NoneType'')"
| "py_len E (JBool b) = Inl (no_len ''bool'')"
| "py_len E (JInt i) = Inl (no_len ''int'')"

definition simulate_notifier ::
  "env \<Rightarrow> string \<Rightarrow> string \<Rightarrow> jdict \<Rightarrow> state \<Rightarrow> agent_result outcome \<times> state" where
  "simulate_notifier E agent act ps s =
     (let notification_type = dict_get ps ''notification_type'' (JStr ''generic'');
          channels = dict_get ps ''channels'' (JList [JStr ''email''])
      in case py_len E channels of
           Inl e \<Rightarrow> (Raised e, s)
         | Inr n \<Rightarrow>
             (Returned
                \<lparr>res_fields =
                   [(''status'', JStr ''completed''),
                    (''action_taken'',
                     JStr (''Sent '' @ fmt E notification_type @ '' notifications'')),
                    (''notifications_sent'', JInt (int n)),
                    (''channels_used'', channels)],
                 res_hdo_updates =
                   Some (no_updates\<lparr>upd_payload := Some
                     [(''notifications'',
                       JDict [(''type'', notification_type),
                              (''channels'', channels),
                              (''sent_at'', JInt (int (clock s)))])]\<rparr>)\<rparr>,
              sleep_ms 200 s))"

definition simulate_reporter ::
  "env \<Rightarrow> string \<Rightarrow> string \<Rightarrow> jdict \<Rightarrow> state \<Rightarrow> agent_result outcome \<times> state" where
  "simulate_reporter E agent act ps s =
     (let report_template = dict_get ps ''report_template'' (JStr ''default'');
          artifact_path = dict_get ps ''artifact_path'' (JStr ''reports/'');
          git_commit = dict_get ps ''git_commit'' (JBool False);
          report_filename =
            fmt E artifact_path @ ''report_'' @ strftime E (clock s) @ ''.json''
      in (Returned
            \<lparr>res_fields =
               [(''status'', JStr ''completed''),
                (''action_taken'', JStr (''Generated report using '' @ fmt E report_template)),
                (''report_generated'', JBool True),
                (''artifact_path'', JStr report_filename),
                (''git_committed'', git_commit)],
             res_hdo_updates =
               Some (no_updates\<lparr>upd_payload := Some
                 [(''report'',
                   JDict [(''template'', report_template),
                          (''path'', JStr report_filename),
                          (''generated_at'', JInt (int (clock s)))])]\<rparr>)\<rparr>,
          sleep_ms 300 s))"

definition simulate_generic_agent ::
  "env \<Rightarrow> string \<Rightarrow> string \<Rightarrow> jdict \<Rightarrow> state \<Rightarrow> agent_result outcome \<times> state" where
  "simulate_generic_agent E agent act ps s =
     (Returned
        \<lparr>res_fields =
           [(''status'', JStr ''completed''),
            (''action_taken'', JStr (''Agent '' @ agent @ '' performed '' @ act)),
            (''parameters_received'', JDict ps)],
         res_hdo_updates =
           Some (no_updates\<lparr>upd_payload := Some
             [(''generic_result'',
               JDict [(''agent_id'', JStr agent),
                      (''action'', JStr act),
                      (''completed_at'', JInt (int (clock s)))])]\<rparr>)\<rparr>,
      sleep_ms 200 s)"

text \<open>
  \<^verbatim>\<open>_delegate_to_agent\<close>: the agent is chosen by \<open>agent_category\<close>; the execution context
  and the HDO are passed on unread, and \<^verbatim>\<open>timeout_seconds\<close> is received and not used.
\<close>

definition delegate_to_agent ::
  "env \<Rightarrow> string \<Rightarrow> string \<Rightarrow> jdict \<Rightarrow> int \<Rightarrow> state \<Rightarrow> agent_result outcome \<times> state" where
  "delegate_to_agent E agent act ps timeout s =
     (case agent_category agent of
        Orchestrator \<Rightarrow> simulate_orchestrator E agent act ps s
      | Mapper \<Rightarrow> simulate_mapper E agent act ps s
      | Validator \<Rightarrow> simulate_validator E agent act ps s
      | Db \<Rightarrow> simulate_db_agent E agent act ps s
      | Enforcer \<Rightarrow> simulate_enforcer E agent act ps s
      | Notifier \<Rightarrow> simulate_notifier E agent act ps s
      | Reporter \<Rightarrow> simulate_reporter E agent act ps s
      | Generic \<Rightarrow> simulate_generic_agent E agent act ps s)"

section \<open>orchestra\_invoke (orchestra.py)\<close>

text \<open>
  \<^verbatim>\<open>_validate_heir_ids(process_id, hdo)\<close>: \<open>None\<close> when the identifiers pass, the
  \<^verbatim>\<open>ValueError\<close> raised otherwise. An empty idempotency key is falsy and is not checked.
\<close>

definition validate_heir_ids :: "env \<Rightarrow> string \<Rightarrow> hdo \<Rightarrow> state \<Rightarrow> exn option" where
  "validate_heir_ids E pid h s =
     (if \<not> re_match E process_id_pattern pid
      then Some (value_error (''Invalid process_id format: '' @ pid))
      else case idempotency_key (meta_of s h) of
             None \<Rightarrow> None
           | Some k \<Rightarrow>
               if k = [] then None
               else if \<not> re_match E idem_pattern k
               then Some (value_error (''Invalid idempotency_key format: '' @ k))
               else if k \<noteq> ''IDEM-'' @ pid
               then Some (value_error (''idempotency_key '' @ k @ '' does not match process_id '' @ pid))
               else None)"

record invoke_args =
  arg_agent_id :: string
  arg_action :: string
  arg_parameters :: jdict
  arg_step_id :: string
  arg_altitude :: int
  arg_timeout_seconds :: int

record invoke_context =
  ctx_process_id :: string
  ctx_hdo :: hdo
  ctx_plan :: plan

text \<open>
  \<^verbatim>\<open>orchestra_invoke(args, ctx)\<close>. The three required-field checks and the identifier
  validation come before the \<^verbatim>\<open>try\<close>; the execution id is a UUID; a failure of the
  delegate is turned into an error record and a \<^verbatim>\<open>RuntimeError\<close>. The sidecar events
  and the table of active orchestrations (entered and removed again) leave no trace.
\<close>

definition orchestra_invoke ::
  "env \<Rightarrow> invoke_args \<Rightarrow> invoke_context \<Rightarrow> state \<Rightarrow> agent_result outcome \<times> state" where
  "orchestra_invoke E args ctx s =
     (if arg_agent_id args = [] then (Raised (value_error ''agent_id is required''), s)
      else if arg_action args = [] then (Raised (value_error ''action is required''), s)
      else if ctx_process_id ctx = []
      then (Raised (value_error ''process_id is required in context''), s)
      else case validate_heir_ids E (ctx_process_id ctx) (ctx_hdo ctx) s of
             Some e \<Rightarrow> (Raised e, s)
           | None \<Rightarrow>
               let s1 = s\<lparr>uuid_calls := Suc (uuid_calls s)\<rparr>
               in (case delegate_to_agent E (arg_agent_id args) (arg_action args)
                          (arg_parameters args) (arg_timeout_seconds args) s1 of
                     (Returned result, s2) \<Rightarrow> (Returned result, s2)
                   | (Raised e, s2) \<Rightarrow>
                       (let (error_rec, s3) =
                              build_error_record E (ctx_hdo ctx)
                                (Some \<lparr>cs_step_id = arg_step_id args,
                                       cs_agent_id = arg_agent_id args,
                                       cs_action = arg_action args,
                                       cs_altitude = arg_altitude args\<rparr>) e s2;
                            s4 = insert_error_record error_rec s3
                        in (Raised (runtime_error
                              (''Agent '' @ arg_agent_id args @ '' failed; error_id='' @
                               error_id error_rec)), s4))))"

section \<open>The runner's bookkeeping (orchestra\_runner.py)\<close>

text \<open>
  \<^verbatim>\<open>_initialize_hdo_execution\<close>: a missing log is a new list object, a missing \<^verbatim>\<open>meta\<close> a new
  dict object; the \<^verbatim>\<open>start_orchestration\<close> entry is appended to the log the HDO refers to.
\<close>

definition start_entry :: "plan \<Rightarrow> nat \<Rightarrow> log_entry" where
  "start_entry pl now =
     \<lparr>timestamp = now, entry_agent_id = ''orchestra-runner'',
      entry_action = ''start_orchestration'', status = ''started'',
      duration_ms = None, entry_error_id = None,
      details =
        [(''plan_id'', JStr (plan_id pl)),
         (''plan_version'', JStr (version pl)),
         (''total_steps'', JInt (int (length (steps pl))))]\<rparr>"

definition initialize_hdo_execution :: "state \<Rightarrow> state" where
  "initialize_hdo_execution s =
     (let now = clock s;
          s1 = (case log (current_hdo s) of
                  Some r \<Rightarrow> s
                | None \<Rightarrow>
                    s\<lparr>logs := (logs s)(next_ref s := []),
                      current_hdo := (current_hdo s)\<lparr>log := Some (next_ref s)\<rparr>,
                      next_ref := Suc (next_ref s)\<rparr>);
          s2 = (case meta (current_hdo s1) of
                  None \<Rightarrow>
                    s1\<lparr>metas := (metas s1)(next_ref s1 := empty_meta\<lparr>altitude_trace := Some []\<rparr>),
                       current_hdo := (current_hdo s1)\<lparr>meta := Some (next_ref s1)\<rparr>,
                       next_ref := Suc (next_ref s1)\<rparr>
                | Some r \<Rightarrow>
                    if altitude_trace (metas s1 r) = None
                    then s1\<lparr>metas := (metas s1)(r := (metas s1 r)\<lparr>altitude_trace := Some []\<rparr>)\<rparr>
                    else s1)
      in snd (append_and_touch (start_entry (current_plan s) now) now s2))"

text \<open>
  The dict comprehension of \<^verbatim>\<open>_all_dependencies_successful\<close> and
  \<^verbatim>\<open>_any_dependencies_failed\<close>: for each step id, the status of its last entry that is
  \<^verbatim>\<open>completed\<close> or \<^verbatim>\<open>failed\<close>.
\<close>

definition completed_steps :: "state \<Rightarrow> jval \<Rightarrow> string option" where
  "completed_steps s =
     map_of (rev (map (\<lambda>entry. (dict_get (details entry) ''step_id'' JNone, status entry))
       (filter (\<lambda>entry. truthy (dict_get (details entry) ''step_id'' JNone) \<and>
                         status entry \<in> set [''completed'', ''failed''])
          (the_log s))))"

definition all_dependencies_successful :: "string list \<Rightarrow> state \<Rightarrow> bool" where
  "all_dependencies_successful step_ids s =
     (if step_ids = [] then True
      else list_all (\<lambda>sid. completed_steps s (JStr sid) = Some ''completed'') step_ids)"

definition any_dependencies_failed :: "string list \<Rightarrow> state \<Rightarrow> bool" where
  "any_dependencies_failed step_ids s =
     (if step_ids = [] then False
      else list_ex (\<lambda>sid. completed_steps s (JStr sid) = Some ''failed'') step_ids)"

text \<open>
  \<^verbatim>\<open>_check_promotion_decision\<close> returns the \<^verbatim>\<open>promotion_decision\<close> of the last matching
  entry as it is, and \<^verbatim>\<open>False\<close> when there is none.
\<close>

definition is_promotion_entry :: "log_entry \<Rightarrow> bool" where
  "is_promotion_entry entry =
     (entry_agent_id entry = ''middle-subagent-enforcer'' \<and> status entry = ''completed'' \<and>
      dict_get (details entry) ''promotion_decision'' JNone \<noteq> JNone)"

definition check_promotion_decision :: "state \<Rightarrow> jval" where
  "check_promotion_decision s =
     (case find is_promotion_entry (rev (the_log s)) of
        Some entry \<Rightarrow> dict_get (details entry) ''promotion_decision'' JNone
      | None \<Rightarrow> JBool False)"

text \<open>The result is used as a condition only, so its truth value is what is returned.\<close>

definition evaluate_condition_expression :: "string \<Rightarrow> state \<Rightarrow> bool" where
  "evaluate_condition_expression expr s =
     (if expr = ''true'' then True
      else if expr = ''false'' then False
      else if py_in ''enforcer.promotion_decision == true'' expr
      then truthy (check_promotion_decision s)
      else True)"

definition should_execute_step :: "step \<Rightarrow> state \<Rightarrow> bool" where
  "should_execute_step st s =
     (let cond = (case when_config st of None \<Rightarrow> None | Some w \<Rightarrow> condition w);
          deps = (case when_config st of None \<Rightarrow> None | Some w \<Rightarrow> depends_on w);
          expr = (case when_config st of None \<Rightarrow> None | Some w \<Rightarrow> expression w);
          the_condition = (case cond of None \<Rightarrow> ''always'' | Some c \<Rightarrow> c)
      in if the_condition = ''always'' then True
         else if the_condition = ''on_success''
         then all_dependencies_successful (case deps of None \<Rightarrow> [] | Some d \<Rightarrow> d) s
         else if the_condition = ''on_failure''
         then any_dependencies_failed (case deps of None \<Rightarrow> [] | Some d \<Rightarrow> d) s
         else if the_condition = ''conditional''
         then evaluate_condition_expression (case expr of None \<Rightarrow> ''true'' | Some e \<Rightarrow> e) s
         else False)"

definition get_step_retry_count :: "string \<Rightarrow> state \<Rightarrow> int" where
  "get_step_retry_count sid s =
     int (length (filter
       (\<lambda>entry. map_of (details entry) ''step_id'' = Some (JStr sid) \<and> status entry = ''failed'')
       (the_log s)))"

text \<open>\<^verbatim>\<open>retry_policy.get('max_retries', 0)\<close> and \<^verbatim>\<open>retry_policy.get('retry_on', [])\<close>\<close>

definition the_max_retries :: "step \<Rightarrow> int" where
  "the_max_retries st =
     (case retry_policy st of None \<Rightarrow> 0
      | Some rp \<Rightarrow> (case max_retries rp of None \<Rightarrow> 0 | Some n \<Rightarrow> n))"

definition the_retry_on :: "step \<Rightarrow> string list" where
  "the_retry_on st =
     (case retry_policy st of None \<Rightarrow> []
      | Some rp \<Rightarrow> (case retry_on rp of None \<Rightarrow> [] | Some l \<Rightarrow> l))"

definition should_retry_step :: "env \<Rightarrow> step \<Rightarrow> exn \<Rightarrow> state \<Rightarrow> bool" where
  "should_retry_step E st err s =
     (if the_max_retries st \<le> 0 then False
      else if get_step_retry_count (step_id st) s \<ge> the_max_retries st then False
      else if py_in ''timeout'' (str_lower E (exn_msg err)) \<and> ''timeout'' \<in> set (the_retry_on st)
      then True
      else if ''agent_failure'' \<in> set (the_retry_on st) then True
      else False)"

definition step_parameters :: "step \<Rightarrow> jdict" where
  "step_parameters st = (case parameters st of None \<Rightarrow> [] | Some p \<Rightarrow> p)"

text \<open>The entries of the four recording functions, as their dict literals give them.\<close>

definition started_entry :: "step \<Rightarrow> nat \<Rightarrow> log_entry" where
  "started_entry st start_time =
     \<lparr>timestamp = start_time, entry_agent_id = agent_id st, entry_action = action st,
      status = ''started'', duration_ms = None, entry_error_id = None,
      details =
        [(''step_id'', JStr (step_id st)), (''altitude'', JInt (altitude st)),
         (''parameters'', JDict (step_parameters st))]\<rparr>"

definition record_step_start :: "step \<Rightarrow> nat \<Rightarrow> state \<Rightarrow> unit outcome \<times> state" where
  "record_step_start st start_time s =
     append_and_touch (started_entry st start_time) start_time s"

text \<open>\<^verbatim>\<open>str(result)[:200] if result else None\<close>\<close>

definition result_summary :: "env \<Rightarrow> agent_result \<Rightarrow> jval" where
  "result_summary E r =
     (if res_fields r \<noteq> [] \<or> res_hdo_updates r \<noteq> None
      then JStr (str_result_200 E r) else JNone)"

definition completed_entry :: "env \<Rightarrow> step \<Rightarrow> nat \<Rightarrow> int \<Rightarrow> agent_result \<Rightarrow> log_entry" where
  "completed_entry E st end_time dur r =
     \<lparr>timestamp = end_time, entry_agent_id = agent_id st, entry_action = action st,
      status = ''completed'', duration_ms = Some dur, entry_error_id = None,
      details =
        [(''step_id'', JStr (step_id st)), (''altitude'', JInt (altitude st)),
         (''result_summary'', result_summary E r)]\<rparr>"

definition record_step_completion ::
  "env \<Rightarrow> step \<Rightarrow> nat \<Rightarrow> nat \<Rightarrow> int \<Rightarrow> agent_result \<Rightarrow> state \<Rightarrow> unit outcome \<times> state" where
  "record_step_completion E st start_time end_time dur r s =
     append_and_touch (completed_entry E st end_time dur r) end_time s"

text \<open>The \<^verbatim>\<open>error_id\<close> of a failed entry is \<^verbatim>\<open>None\<close>, and nothing sets it later.\<close>

definition failed_entry :: "step \<Rightarrow> nat \<Rightarrow> int \<Rightarrow> exn \<Rightarrow> log_entry" where
  "failed_entry st end_time dur err =
     \<lparr>timestamp = end_time, entry_agent_id = agent_id st, entry_action = action st,
      status = ''failed'', duration_ms = Some dur, entry_error_id = None,
      details =
        [(''step_id'', JStr (step_id st)), (''altitude'', JInt (altitude st)),
         (''error_message'', JStr (exn_msg err)),
         (''error_type'', JStr (exn_type err))]\<rparr>"

definition record_step_failure ::
  "step \<Rightarrow> nat \<Rightarrow> nat \<Rightarrow> int \<Rightarrow> exn \<Rightarrow> state \<Rightarrow> unit outcome \<times> state" where
  "record_step_failure st start_time end_time dur err s =
     append_and_touch (failed_entry st end_time dur err) end_time s"

definition skipped_entry :: "step \<Rightarrow> nat \<Rightarrow> log_entry" where
  "skipped_entry st now =
     \<lparr>timestamp = now, entry_agent_id = agent_id st, entry_action = action st,
      status = ''skipped'', duration_ms = None, entry_error_id = None,
      details =
        [(''step_id'', JStr (step_id st)), (''altitude'', JInt (altitude st)),
         (''skip_reason'', JStr ''condition_not_met'')]\<rparr>"

definition record_step_skipped :: "step \<Rightarrow> state \<Rightarrow> unit outcome \<times> state" where
  "record_step_skipped st s =
     append_and_touch (skipped_entry st (clock s)) (clock s) s"

definition complete_entry :: "state \<Rightarrow> log_entry" where
  "complete_entry s =
     \<lparr>timestamp = clock s, entry_agent_id = ''orchestra-runner'',
      entry_action = ''complete_orchestration'', status = ''completed'',
      duration_ms = None, entry_error_id = None,
      details =
        [(''plan_id'', JStr (plan_id (current_plan s))),
         (''total_steps_executed'',
          JInt (int (length (filter
            (\<lambda>entry. truthy (dict_get (details entry) ''step_id'' JNone))
            (the_log s)))))]\<rparr>"

definition complete_hdo_execution :: "state \<Rightarrow> unit outcome \<times> state" where
  "complete_hdo_execution s =
     (case append_and_touch (complete_entry s) (clock s) s of
        (Raised e, s1) \<Rightarrow> (Raised e, s1)
      | (Returned u, s1) \<Rightarrow>
          (Returned (),
           s1\<lparr>current_hdo := (current_hdo s1)\<lparr>stage := Some ''output'',
                                                validated := Some True\<rparr>\<rparr>))"

text \<open>
  \<^verbatim>\<open>_apply_hdo_updates\<close>: the payload and the meta objects are updated in place
  (\<^verbatim>\<open>KeyError\<close> when the HDO has no such key), then the three top-level keys are replaced.
\<close>

definition apply_payload_update :: "hdo_updates \<Rightarrow> state \<Rightarrow> unit outcome \<times> state" where
  "apply_payload_update u s =
     (case upd_payload u of
        None \<Rightarrow> (Returned (), s)
      | Some p \<Rightarrow>
          (case payload (current_hdo s) of
             None \<Rightarrow> (Raised (key_error ''payload''), s)
           | Some r \<Rightarrow> (Returned (), s\<lparr>payloads := (payloads s)(r := dict_update (payloads s r) p)\<rparr>)))"

definition apply_meta_update :: "hdo_updates \<Rightarrow> state \<Rightarrow> unit outcome \<times> state" where
  "apply_meta_update u s =
     (case upd_meta u of
        None \<Rightarrow> (Returned (), s)
      | Some m \<Rightarrow>
          (case meta (current_hdo s) of
             None \<Rightarrow> (Raised (key_error ''meta''), s)
           | Some r \<Rightarrow> (Returned (), s\<lparr>metas := (metas s)(r := meta_merge (metas s r) m)\<rparr>)))"

definition apply_top_level_updates :: "hdo_updates \<Rightarrow> state \<Rightarrow> state" where
  "apply_top_level_updates u s =
     s\<lparr>current_hdo := (current_hdo s)
        \<lparr>stage := (case upd_stage u of None \<Rightarrow> stage (current_hdo s) | Some v \<Rightarrow> Some v),
         validated :=
           (case upd_validated u of None \<Rightarrow> validated (current_hdo s) | Some v \<Rightarrow> Some v),
         promoted_to :=
           (case upd_promoted_to u of None \<Rightarrow> promoted_to (current_hdo s) | Some v \<Rightarrow> v)\<rparr>\<rparr>"

definition apply_hdo_updates :: "hdo_updates \<Rightarrow> state \<Rightarrow> unit outcome \<times> state" where
  "apply_hdo_updates u s =
     (case apply_payload_update u s of
        (Raised e, s1) \<Rightarrow> (Raised e, s1)
      | (Returned x, s1) \<Rightarrow>
          (case apply_meta_update u s1 of
             (Raised e, s2) \<Rightarrow> (Raised e, s2)
           | (Returned y, s2) \<Rightarrow> (Returned (), apply_top_level_updates u s2)))"

text \<open>
  \<^verbatim>\<open>_invoke_step\<close>, called without an MCP call context (the default \<^verbatim>\<open>None\<close>): the
  invocation context holds the process id, the runner's HDO and the plan.
\<close>

definition invoke_step :: "env \<Rightarrow> step \<Rightarrow> state \<Rightarrow> agent_result outcome \<times> state" where
  "invoke_step E st s =
     (let args = \<lparr>arg_agent_id = agent_id st, arg_action = action st,
                  arg_parameters = step_parameters st, arg_step_id = step_id st,
                  arg_altitude = altitude st,
                  arg_timeout_seconds = (case timeout_seconds st of None \<Rightarrow> 120 | Some t \<Rightarrow> t)\<rparr>;
          ctx = \<lparr>ctx_process_id = process_id (current_hdo s), ctx_hdo = current_hdo s,
                 ctx_plan = current_plan s\<rparr>
      in case orchestra_invoke E args ctx s of
           (Raised e, s1) \<Rightarrow> (Raised e, s1)
         | (Returned r, s1) \<Rightarrow>
             (case res_hdo_updates r of
                None \<Rightarrow> (Returned r, s1)
              | Some u \<Rightarrow>
                  (case apply_hdo_updates u s1 of
                     (Raised e, s2) \<Rightarrow> (Raised e, s2)
                   | (Returned x, s2) \<Rightarrow> (Returned r, s2))))"

text \<open>\<^verbatim>\<open>_record_hdo_error\<close>\<close>

definition record_hdo_error :: "error_record \<Rightarrow> state \<Rightarrow> state" where
  "record_hdo_error er s =
     (let (r, s1) = (case meta (current_hdo s) of
                       Some r \<Rightarrow> (r, s)
                     | None \<Rightarrow>
                         (next_ref s,
                          s\<lparr>metas := (metas s)(next_ref s := empty_meta),
                            current_hdo := (current_hdo s)\<lparr>meta := Some (next_ref s)\<rparr>,
                            next_ref := Suc (next_ref s)\<rparr>));
          ec = (case error_context (metas s1 r) of
                  None \<Rightarrow> \<lparr>last_error_id = None, error_count = 0, retry_count = 0,
                            ctx_max_retries = 3\<rparr>
                | Some c \<Rightarrow> c)
      in s1\<lparr>metas := (metas s1)(r := (metas s1 r)\<lparr>error_context :=
             Some (ec\<lparr>last_error_id := Some (error_id er),
                       error_count := error_count ec + 1\<rparr>)\<rparr>)\<rparr>)"

section \<open>The step executor and the runner (orchestra\_runner.py)\<close>

text \<open>The \<^verbatim>\<open>try\<close> block of \<^verbatim>\<open>_execute_step\<close>: start entry, invocation, completion entry.\<close>

definition step_try :: "env \<Rightarrow> step \<Rightarrow> nat \<Rightarrow> state \<Rightarrow> unit outcome \<times> state" where
  "step_try E st start_time s =
     (case record_step_start st start_time s of
        (Raised e, s1) \<Rightarrow> (Raised e, s1)
      | (Returned u, s1) \<Rightarrow>
          (case invoke_step E st s1 of
             (Raised e, s2) \<Rightarrow> (Raised e, s2)
           | (Returned step_result, s2) \<Rightarrow>
               record_step_completion E st start_time (clock s2)
                 (int (clock s2) - int start_time) step_result s2))"

definition the_backoff_ms :: "step \<Rightarrow> nat" where
  "the_backoff_ms st =
     1000 * (case retry_policy st of None \<Rightarrow> 5
             | Some rp \<Rightarrow> (case backoff_seconds rp of None \<Rightarrow> 5 | Some b \<Rightarrow> b))"

subsection \<open>What one step attempt does to the log\<close>

lemma the_log_log_append:
  "log_append e s = (Returned u, s') \<Longrightarrow> the_log s' = the_log s @ [e]"
  by (auto simp: log_append_def the_log_def split: option.splits)

lemma delegate_frame:
  "\<exists>d. snd (delegate_to_agent E a act ps t s) = sleep_ms d s"
proof (cases "agent_category a")
  case Db
  then show ?thesis
    by (auto simp: delegate_to_agent_def simulate_db_agent_def Let_def)
next
  case Notifier
  then show ?thesis
    apply (cases "py_len E (dict_get ps ''channels'' (JList [JStr ''email'']))")
    apply (auto simp: delegate_to_agent_def simulate_notifier_def Let_def sleep_ms_def intro: exI[of _ 0])
    done
qed (auto simp: delegate_to_agent_def simulate_orchestrator_def simulate_mapper_def
      simulate_validator_def simulate_enforcer_def simulate_reporter_def
      simulate_generic_agent_def Let_def)

lemma orchestra_invoke_frame:
  assumes "orchestra_invoke E a c s = (r, s')"
  shows "logs s' = logs s \<and> current_hdo s' = current_hdo s \<and> metas s' = metas s \<and>
         payloads s' = payloads s \<and> next_ref s' = next_ref s \<and>
         current_plan s' = current_plan s"
proof -
  let ?s1 = "s\<lparr>uuid_calls := Suc (uuid_calls s)\<rparr>"
  obtain r2 s2 where d: "delegate_to_agent E (arg_agent_id a) (arg_action a)
      (arg_parameters a) (arg_timeout_seconds a) ?s1 = (r2, s2)"
    by (cases "delegate_to_agent E (arg_agent_id a) (arg_action a)
      (arg_parameters a) (arg_timeout_seconds a) ?s1") auto
  obtain dd where s2: "s2 = sleep_ms dd ?s1"
    using delegate_frame[of E "arg_agent_id a" "arg_action a" "arg_parameters a"
        "arg_timeout_seconds a" ?s1] d by auto
  show ?thesis
    using assms d s2
    by (auto simp: orchestra_invoke_def Let_def sleep_ms_def build_error_record_def
        insert_error_record_def split: if_splits option.splits outcome.splits)
qed

lemma apply_hdo_updates_frame:
  assumes "apply_hdo_updates u s = (r, s')"
  shows "logs s' = logs s \<and> log (current_hdo s') = log (current_hdo s) \<and>
         current_plan s' = current_plan s"
  using assms
  by (auto simp: apply_hdo_updates_def apply_payload_update_def apply_meta_update_def
      apply_top_level_updates_def split: option.splits outcome.splits prod.splits)

lemma invoke_step_frame:
  assumes "invoke_step E st s = (r, s')"
  shows "logs s' = logs s \<and> log (current_hdo s') = log (current_hdo s) \<and>
         current_plan s' = current_plan s"
proof -
  obtain r1 s1 where o: "orchestra_invoke E
      \<lparr>arg_agent_id = agent_id st, arg_action = action st,
       arg_parameters = step_parameters st, arg_step_id = step_id st,
       arg_altitude = altitude st,
       arg_timeout_seconds = (case timeout_seconds st of None \<Rightarrow> 120 | Some t \<Rightarrow> t)\<rparr>
      \<lparr>ctx_process_id = process_id (current_hdo s), ctx_hdo = current_hdo s,
       ctx_plan = current_plan s\<rparr> s = (r1, s1)"
    by (metis surj_pair)
  note f = orchestra_invoke_frame[OF o]
  show ?thesis
  proof (cases r1)
    case (Raised e)
    then show ?thesis using assms o f by (simp add: invoke_step_def Let_def)
  next
    case (Returned res)
    show ?thesis
    proof (cases "res_hdo_updates res")
      case None
      then show ?thesis using assms o f Returned by (simp add: invoke_step_def Let_def)
    next
      case (Some u)
      obtain r2 s2 where a: "apply_hdo_updates u s1 = (r2, s2)" by (metis surj_pair)
      from apply_hdo_updates_frame[OF a] f have "logs s2 = logs s \<and> log (current_hdo s2) = log (current_hdo s) \<and>
         current_plan s2 = current_plan s" by simp
      then show ?thesis using assms o Returned Some a
        by (cases r2) (auto simp add: invoke_step_def Let_def)
    qed
  qed
qed

lemma the_log_cong:
  "logs s' = logs s \<Longrightarrow> log (current_hdo s') = log (current_hdo s) \<Longrightarrow> the_log s' = the_log s"
  by (simp add: the_log_def split: option.splits)

lemma log_append_effect:
  assumes "log_append e s = (r, s')"
  shows "log (current_hdo s') = log (current_hdo s) \<and> current_plan s' = current_plan s \<and>
         (case r of Returned u \<Rightarrow> the_log s' = the_log s @ [e] | Raised x \<Rightarrow> s' = s)"
  using assms by (auto simp: log_append_def the_log_def split: option.splits)

lemma touch_log [simp]:
  "the_log (touch t s) = the_log s" "log (current_hdo (touch t s)) = log (current_hdo s)"
  "current_plan (touch t s) = current_plan s"
  by (simp_all add: touch_def the_log_def split: option.splits)

lemma sleep_log [simp]:
  "the_log (sleep_ms t s) = the_log s" "log (current_hdo (sleep_ms t s)) = log (current_hdo s)"
  "current_plan (sleep_ms t s) = current_plan s"
  by (simp_all add: sleep_ms_def the_log_def split: option.splits)

lemma log_append_Some:
  "log (current_hdo s) = Some a \<Longrightarrow>
   log_append e s = (Returned (), s\<lparr>logs := (logs s)(a := logs s a @ [e])\<rparr>)"
  by (simp add: log_append_def)

lemma log_append_None:
  "log (current_hdo s) = None \<Longrightarrow> log_append e s = (Raised (key_error ''log''), s)"
  by (simp add: log_append_def)

lemma append_and_touch_Some:
  "log (current_hdo s) = Some a \<Longrightarrow>
   append_and_touch e t s =
     (Returned (), touch t (s\<lparr>logs := (logs s)(a := logs s a @ [e])\<rparr>))"
  by (simp add: append_and_touch_def log_append_def)

lemma append_and_touch_None:
  "log (current_hdo s) = None \<Longrightarrow> append_and_touch e t s = (Raised (key_error ''log''), s)"
  by (simp add: append_and_touch_def log_append_def)

lemma append_and_touch_effect:
  assumes "append_and_touch e t s = (r, s')"
  shows "log (current_hdo s') = log (current_hdo s)"
    and "current_plan s' = current_plan s"
    and "r = Returned u \<Longrightarrow> the_log s' = the_log s @ [e]"
    and "r = Raised x \<Longrightarrow> s' = s"
proof -
  have "log (current_hdo s') = log (current_hdo s) \<and> current_plan s' = current_plan s \<and>
        (r = Returned u \<longrightarrow> the_log s' = the_log s @ [e]) \<and> (r = Raised x \<longrightarrow> s' = s)"
  proof (cases "log (current_hdo s)")
    case None
    from assms have "r = Raised (key_error ''log'')" "s' = s"
      by (simp_all add: append_and_touch_None[OF None])
    then show ?thesis by simp
  next
    case (Some a)
    from assms have r: "r = Returned ()"
      and s': "s' = touch t (s\<lparr>logs := (logs s)(a := logs s a @ [e])\<rparr>)"
      by (simp_all add: append_and_touch_Some[OF Some])
    show ?thesis unfolding s' r by (simp add: touch_def the_log_def Some)
  qed
  then show "log (current_hdo s') = log (current_hdo s)"
    and "current_plan s' = current_plan s"
    and "r = Returned u \<Longrightarrow> the_log s' = the_log s @ [e]"
    and "r = Raised x \<Longrightarrow> s' = s" by blast+
qed

lemma invoke_step_log:
  assumes "invoke_step E st s = (r, s')"
  shows "log (current_hdo s') = log (current_hdo s)"
    and "current_plan s' = current_plan s"
    and "the_log s' = the_log s"
  using invoke_step_frame[OF assms] the_log_cong[of s' s] by simp_all

definition failed_for :: "string \<Rightarrow> log_entry \<Rightarrow> bool" where
  "failed_for sid entry =
     (map_of (details entry) ''step_id'' = Some (JStr sid) \<and> status entry = ''failed'')"

lemma retry_count_append:
  "the_log s' = the_log s @ xs \<Longrightarrow>
   get_step_retry_count sid s' = get_step_retry_count sid s + int (length (filter (failed_for sid) xs))"
  by (simp add: get_step_retry_count_def failed_for_def[abs_def])

lemma failed_for_entries:
  "\<not> failed_for sid (started_entry st t)"
  "\<not> failed_for sid (completed_entry E st c d res)"
  "failed_for (step_id st) (failed_entry st c d err)"
  by (simp_all add: failed_for_def started_entry_def completed_entry_def failed_entry_def)

lemma step_try_effect:
  assumes "step_try E st t s = (r, s')"
  shows "log (current_hdo s') = log (current_hdo s) \<and> current_plan s' = current_plan s \<and>
         (the_log s' = the_log s \<or> the_log s' = the_log s @ [started_entry st t] \<or>
          (\<exists>c d res. the_log s' = the_log s @ [started_entry st t, completed_entry E st c d res]))"
proof -
  obtain r1 s1 where a: "record_step_start st t s = (r1, s1)" by (cases "record_step_start st t s")
  then have a': "append_and_touch (started_entry st t) t s = (r1, s1)"
    by (simp add: record_step_start_def)
  note e1 = append_and_touch_effect[OF a']
  show ?thesis
  proof (cases r1)
    case (Raised x)
    then have "s' = s1" using assms a by (simp add: step_try_def)
    moreover have "s1 = s" using e1(4) Raised by simp
    ultimately show ?thesis by simp
  next
    case R1: (Returned u)
    then have l1: "the_log s1 = the_log s @ [started_entry st t]" using e1(3) by simp
    obtain r2 s2 where b: "invoke_step E st s1 = (r2, s2)" by (cases "invoke_step E st s1")
    note e2 = invoke_step_log[OF b]
    show ?thesis
    proof (cases r2)
      case (Raised x)
      then have "s' = s2" using assms a b R1 by (simp add: step_try_def)
      then show ?thesis using e1(1,2) e2 l1 by simp
    next
      case (Returned res)
      have c: "append_and_touch (completed_entry E st (clock s2) (int (clock s2) - int t) res)
                 (clock s2) s2 = (r, s')"
        using assms a b Returned R1 by (simp add: step_try_def record_step_completion_def)
      note e3 = append_and_touch_effect[OF c]
      show ?thesis
      proof (cases r)
        case (Raised x)
        then have "s' = s2" using e3(4) by simp
        then show ?thesis using e1(1,2) e2 l1 by simp
      next
        case (Returned v)
        then have "the_log s' = the_log s @ [started_entry st t,
            completed_entry E st (clock s2) (int (clock s2) - int t) res]"
          using e3(3) e2(3) l1 by simp
        then show ?thesis using e1(1,2) e2(1,2) e3(1,2) by auto
      qed
    qed
  qed
qed


lemma should_retry_bound:
  "should_retry_step E st err s \<Longrightarrow> get_step_retry_count (step_id st) s < the_max_retries st"
  unfolding should_retry_step_def by (simp split: if_splits)

lemma step_try_retry_count:
  assumes "step_try E st t s = (r, s')"
  shows "get_step_retry_count sid s' = get_step_retry_count sid s"
proof -
  from step_try_effect[OF assms]
  consider "the_log s' = the_log s" | "the_log s' = the_log s @ [started_entry st t]"
    | c d res where "the_log s' = the_log s @ [started_entry st t, completed_entry E st c d res]"
    by blast
  then show ?thesis
  proof cases
    case 1
    then show ?thesis by (simp add: get_step_retry_count_def)
  next
    case 2
    show ?thesis using retry_count_append[OF 2, of sid] by (simp add: failed_for_entries)
  next
    case 3
    show ?thesis using retry_count_append[OF 3, of sid] by (simp add: failed_for_entries)
  qed
qed



text \<open>
  \<^verbatim>\<open>_execute_step\<close>. A retry is the function calling itself after the back-off sleep; it
  happens only while the count of failed entries of the step is below \<^verbatim>\<open>max_retries\<close>, and
  every failed attempt adds one such entry, which is why the recursion ends.
\<close>

function execute_step :: "env \<Rightarrow> step \<Rightarrow> state \<Rightarrow> unit outcome \<times> state" where
  "execute_step E st s =
     (if \<not> should_execute_step st s then record_step_skipped st s
      else
        (let start_time = clock s
         in case step_try E st start_time s of
              (Returned u, s1) \<Rightarrow> (Returned (), s1)
            | (Raised e, s1) \<Rightarrow>
                (case record_step_failure st start_time (clock s1)
                        (int (clock s1) - int start_time) e s1 of
                   (Raised e', s2) \<Rightarrow> (Raised e', s2)
                 | (Returned u, s2) \<Rightarrow>
                     if should_retry_step E st e s2
                     then execute_step E st (sleep_ms (the_backoff_ms st) s2)
                     else (Raised e, s2))))"
  by pat_completeness auto
termination
proof (relation "measure (\<lambda>(E, st, s). nat (the_max_retries st - get_step_retry_count (step_id st) s))",
       goal_cases)
  case 1
  show ?case by simp
next
  case (2 E st s start_time x s1 e r2 s2 u)
  have t: "step_try E st (clock s) s = (Raised e, s1)" using 2 by simp
  have f: "append_and_touch (failed_entry st (clock s1) (int (clock s1) - int (clock s)) e)
             (clock s1) s1 = (Returned u, s2)"
    using 2 by (simp add: record_step_failure_def)
  have l2: "the_log s2 = the_log s1 @ [failed_entry st (clock s1) (int (clock s1) - int (clock s)) e]"
    using append_and_touch_effect(3)[OF f] by simp
  have c1: "get_step_retry_count (step_id st) s1 = get_step_retry_count (step_id st) s"
    by (rule step_try_retry_count[OF t])
  have c2: "get_step_retry_count (step_id st) s2 = get_step_retry_count (step_id st) s1 + 1"
    using retry_count_append[OF l2, of "step_id st"] by (simp add: failed_for_entries)
  have c3: "get_step_retry_count (step_id st) s2 < the_max_retries st"
    using should_retry_bound[of E st e s2] 2 by simp
  have c4: "get_step_retry_count (step_id st) (sleep_ms (the_backoff_ms st) s2) =
            get_step_retry_count (step_id st) s2"
    by (simp add: get_step_retry_count_def)
  show ?case using c1 c2 c3 c4 by simp
qed


declare execute_step.simps [simp del]

text \<open>The \<^verbatim>\<open>for\<close> loop of \<^verbatim>\<open>run_altitude_plan\<close>: the first exception ends it.\<close>

fun run_steps :: "env \<Rightarrow> step list \<Rightarrow> state \<Rightarrow> unit outcome \<times> state" where
  "run_steps E [] s = (Returned (), s)"
| "run_steps E (st # rest) s =
     (case execute_step E st s of
        (Raised e, s1) \<Rightarrow> (Raised e, s1)
      | (Returned u, s1) \<Rightarrow> run_steps E rest s1)"

text \<open>The \<^verbatim>\<open>try\<close> block of \<^verbatim>\<open>run_altitude_plan\<close>.\<close>

definition plan_try :: "env \<Rightarrow> plan \<Rightarrow> state \<Rightarrow> unit outcome \<times> state" where
  "plan_try E pl s =
     (case run_steps E (steps pl) (initialize_hdo_execution s) of
        (Raised e, s1) \<Rightarrow> (Raised e, s1)
      | (Returned u, s1) \<Rightarrow> complete_hdo_execution s1)"

definition failure_message :: "plan \<Rightarrow> error_record \<Rightarrow> string" where
  "failure_message pl er =
     ''Orchestration plan '' @ plan_id pl @ '' failed; error_id='' @ error_id er"

text \<open>
  \<^verbatim>\<open>run_altitude_plan(plan, hdo)\<close>, without an MCP call context. \<^verbatim>\<open>hdo.copy()\<close> is a
  shallow copy: a new top-level dict with the same references to the log, meta and payload
  objects. The runner's two attributes are overwritten at each call.
\<close>

definition run_altitude_plan :: "env \<Rightarrow> plan \<Rightarrow> hdo \<Rightarrow> state \<Rightarrow> hdo outcome \<times> state" where
  "run_altitude_plan E pl h s =
     (case plan_try E pl (s\<lparr>current_plan := pl, current_hdo := h\<rparr>) of
        (Returned u, s1) \<Rightarrow> (Returned (current_hdo s1), s1)
      | (Raised e, s1) \<Rightarrow>
          (let (error_rec, s2) = build_error_record E (current_hdo s1) None e s1;
               s3 = insert_error_record error_rec s2;
               s4 = record_hdo_error error_rec s3
           in (Raised (runtime_error (failure_message pl error_rec)), s4)))"

lemma execute_step_cases_induct:
  assumes skip: "\<And>s. \<not> should_execute_step st s \<Longrightarrow> P s (record_step_skipped st s)"
    and ok: "\<And>s u s1. should_execute_step st s \<Longrightarrow>
               step_try E st (clock s) s = (Returned u, s1) \<Longrightarrow> P s (Returned (), s1)"
    and nolog: "\<And>s e s1 e' s2. should_execute_step st s \<Longrightarrow>
               step_try E st (clock s) s = (Raised e, s1) \<Longrightarrow>
               record_step_failure st (clock s) (clock s1) (int (clock s1) - int (clock s)) e s1
                 = (Raised e', s2) \<Longrightarrow> P s (Raised e', s2)"
    and retry: "\<And>s e s1 u s2. should_execute_step st s \<Longrightarrow>
               step_try E st (clock s) s = (Raised e, s1) \<Longrightarrow>
               record_step_failure st (clock s) (clock s1) (int (clock s1) - int (clock s)) e s1
                 = (Returned u, s2) \<Longrightarrow>
               should_retry_step E st e s2 \<Longrightarrow>
               P (sleep_ms (the_backoff_ms st) s2)
                 (execute_step E st (sleep_ms (the_backoff_ms st) s2)) \<Longrightarrow>
               P s (execute_step E st (sleep_ms (the_backoff_ms st) s2))"
    and giveup: "\<And>s e s1 u s2. should_execute_step st s \<Longrightarrow>
               step_try E st (clock s) s = (Raised e, s1) \<Longrightarrow>
               record_step_failure st (clock s) (clock s1) (int (clock s1) - int (clock s)) e s1
                 = (Returned u, s2) \<Longrightarrow>
               \<not> should_retry_step E st e s2 \<Longrightarrow> P s (Raised e, s2)"
  shows "P s (execute_step E st s)"
proof (induction "nat (the_max_retries st - get_step_retry_count (step_id st) s)"
       arbitrary: s rule: less_induct)
  case less
  show ?case
  proof (cases "should_execute_step st s")
    case False
    then show ?thesis using skip[of s] by (simp add: execute_step.simps[of E st s])
  next
    case True
    obtain r1 s1 where t: "step_try E st (clock s) s = (r1, s1)"
      by (cases "step_try E st (clock s) s")
    show ?thesis
    proof (cases r1)
      case (Returned u)
      then show ?thesis using ok[of s u s1] True t
        by (simp add: execute_step.simps[of E st s])
    next
      case (Raised e)
      obtain r2 s2 where f: "record_step_failure st (clock s) (clock s1)
          (int (clock s1) - int (clock s)) e s1 = (r2, s2)"
        by (cases "record_step_failure st (clock s) (clock s1)
          (int (clock s1) - int (clock s)) e s1")
      show ?thesis
      proof (cases r2)
        case R2: (Raised e')
        then show ?thesis using nolog[of s e s1 e' s2] True t f Raised
          by (simp add: execute_step.simps[of E st s])
      next
        case (Returned u)
        show ?thesis
        proof (cases "should_retry_step E st e s2")
          case False
          then show ?thesis using giveup[of s e s1 u s2] True t f Raised Returned
            by (simp add: execute_step.simps[of E st s])
        next
          case R: True
          have f': "append_and_touch (failed_entry st (clock s1) (int (clock s1) - int (clock s)) e)
             (clock s1) s1 = (Returned u, s2)"
            using f Returned by (simp add: record_step_failure_def)
          have l2: "the_log s2 = the_log s1 @ [failed_entry st (clock s1) (int (clock s1) - int (clock s)) e]"
            using append_and_touch_effect(3)[OF f'] by simp
          have c1: "get_step_retry_count (step_id st) s1 = get_step_retry_count (step_id st) s"
            using step_try_retry_count[of E st "clock s" s r1 s1] t by simp
          have c2: "get_step_retry_count (step_id st) s2 = get_step_retry_count (step_id st) s1 + 1"
            using retry_count_append[OF l2, of "step_id st"] by (simp add: failed_for_entries)
          have c3: "get_step_retry_count (step_id st) s2 < the_max_retries st"
            using should_retry_bound[OF R] .
          have c4: "get_step_retry_count (step_id st) (sleep_ms (the_backoff_ms st) s2) =
            get_step_retry_count (step_id st) s2"
            by (simp add: get_step_retry_count_def)
          have "nat (the_max_retries st - get_step_retry_count (step_id st) (sleep_ms (the_backoff_ms st) s2))
                < nat (the_max_retries st - get_step_retry_count (step_id st) s)"
            using c1 c2 c3 c4 by simp
          from less[OF this]
          have "P (sleep_ms (the_backoff_ms st) s2) (execute_step E st (sleep_ms (the_backoff_ms st) s2))" .
          have t': "step_try E st (clock s) s = (Raised e, s1)" using t Raised by simp
          have f2: "record_step_failure st (clock s) (clock s1)
              (int (clock s1) - int (clock s)) e s1 = (Returned u, s2)" using f Returned by simp
          have "P s (execute_step E st (sleep_ms (the_backoff_ms st) s2))"
            by (rule retry[OF True t' f2 R \<open>P (sleep_ms (the_backoff_ms st) s2) (execute_step E st (sleep_ms (the_backoff_ms st) s2))\<close>])
          then show ?thesis using True t f Raised Returned R
            by (simp add: execute_step.simps[of E st s])
        qed
      qed
    qed
  qed
qed

definition log_kept :: "state \<Rightarrow> state \<Rightarrow> bool" where
  "log_kept s s' =
     (log (current_hdo s') = log (current_hdo s) \<and> current_plan s' = current_plan s \<and>
      prefix (the_log s) (the_log s'))"

lemma log_kept_refl: "log_kept s s"
  by (simp add: log_kept_def)

lemma log_kept_trans: "log_kept s s1 \<Longrightarrow> log_kept s1 s2 \<Longrightarrow> log_kept s s2"
  by (auto simp: log_kept_def)

lemma log_kept_same:
  "log (current_hdo s') = log (current_hdo s) \<Longrightarrow> current_plan s' = current_plan s \<Longrightarrow>
   the_log s' = the_log s \<Longrightarrow> log_kept s s'"
  by (simp add: log_kept_def)

lemma append_and_touch_kept:
  assumes "append_and_touch e t s = (r, s')"
  shows "log_kept s s'" and "r = Returned u \<Longrightarrow> length (the_log s') = Suc (length (the_log s))"
proof -
  note e = append_and_touch_effect[OF assms]
  show "log_kept s s'"
  proof (cases r)
    case (Returned v)
    then have "the_log s' = the_log s @ [e]" using e(3) by simp
    then show ?thesis using e(1,2) by (simp add: log_kept_def)
  next
    case (Raised x)
    then have "s' = s" using e(4) by simp
    then show ?thesis by (simp add: log_kept_def)
  qed
  show "r = Returned u \<Longrightarrow> length (the_log s') = Suc (length (the_log s))"
    using e(3)[of u] by simp
qed

lemma step_try_kept:
  assumes "step_try E st t s = (r, s')"
  shows "log_kept s s'"
  using step_try_effect[OF assms] by (auto simp: log_kept_def)

lemma step_try_Returned:
  assumes "step_try E st t s = (Returned u, s')"
  shows "\<exists>c d res. the_log s' = the_log s @ [started_entry st t, completed_entry E st c d res]"
proof -
  obtain r1 s1 where a: "append_and_touch (started_entry st t) t s = (r1, s1)"
    by (cases "append_and_touch (started_entry st t) t s")
  show ?thesis
  proof (cases r1)
    case (Raised x)
    then show ?thesis using assms a by (simp add: step_try_def record_step_start_def)
  next
    case R1: (Returned v)
    then have l1: "the_log s1 = the_log s @ [started_entry st t]"
      using append_and_touch_effect(3)[OF a] by simp
    obtain r2 s2 where b: "invoke_step E st s1 = (r2, s2)" by (cases "invoke_step E st s1")
    note e2 = invoke_step_log[OF b]
    show ?thesis
    proof (cases r2)
      case (Raised x)
      then show ?thesis using assms a b R1 by (simp add: step_try_def record_step_start_def)
    next
      case (Returned res)
      have c: "append_and_touch (completed_entry E st (clock s2) (int (clock s2) - int t) res)
                 (clock s2) s2 = (Returned u, s')"
        using assms a b Returned R1
        by (simp add: step_try_def record_step_start_def record_step_completion_def)
      have "the_log s' = the_log s2 @ [completed_entry E st (clock s2) (int (clock s2) - int t) res]"
        using append_and_touch_effect(3)[OF c] by simp
      then have "the_log s' = the_log s @ [started_entry st t,
            completed_entry E st (clock s2) (int (clock s2) - int t) res]"
        using e2(3) l1 by simp
      then show ?thesis by blast
    qed
  qed
qed

lemma execute_step_kept:
  "log_kept s (snd (execute_step E st s)) \<and>
   (fst (execute_step E st s) = Returned () \<longrightarrow>
      length (the_log s) < length (the_log (snd (execute_step E st s))))"
proof (rule execute_step_cases_induct[where P = "\<lambda>s rs. log_kept s (snd rs) \<and>
          (fst rs = Returned () \<longrightarrow> length (the_log s) < length (the_log (snd rs)))"],
       goal_cases)
  case (1 s)
  obtain r s' where a: "append_and_touch (skipped_entry st (clock s)) (clock s) s = (r, s')"
    by (cases "append_and_touch (skipped_entry st (clock s)) (clock s) s")
  show ?case using append_and_touch_kept(1)[OF a] append_and_touch_kept(2)[OF a, of "()"] a
    by (simp add: record_step_skipped_def)
next
  case (2 s u s1)
  from step_try_Returned[OF 2(2)] have "length (the_log s) < length (the_log s1)" by auto
  then show ?case using step_try_kept[OF 2(2)] by simp
next
  case (3 s e s1 e' s2)
  have "s2 = s1" using 3(3) append_and_touch_effect(4)[of _ _ s1 "Raised e'" s2 e']
    by (simp add: record_step_failure_def)
  then show ?case using step_try_kept[OF 3(2)] by simp
next
  case (4 s e s1 u s2)
  have k1: "log_kept s s1" using step_try_kept[OF 4(2)] .
  have k2: "log_kept s1 s2" using 4(3) append_and_touch_kept(1)[of _ _ s1 "Returned u" s2]
    by (simp add: record_step_failure_def)
  have k3: "log_kept s2 (sleep_ms (the_backoff_ms st) s2)" by (simp add: log_kept_def)
  have k: "log_kept s (sleep_ms (the_backoff_ms st) s2)"
    using log_kept_trans[OF log_kept_trans[OF k1 k2] k3] .
  have le: "length (the_log s) \<le> length (the_log (sleep_ms (the_backoff_ms st) s2))"
    using k by (auto simp: log_kept_def prefix_def)
  show ?case using 4(5) log_kept_trans[OF k] le by auto
next
  case (5 s e s1 u s2)
  have k1: "log_kept s s1" using step_try_kept[OF 5(2)] .
  have k2: "log_kept s1 s2" using 5(3) append_and_touch_kept(1)[of _ _ s1 "Returned u" s2]
    by (simp add: record_step_failure_def)
  show ?case using log_kept_trans[OF k1 k2] by simp
qed

lemma run_steps_kept:
  "log_kept s (snd (run_steps E sts s)) \<and>
   (fst (run_steps E sts s) = Returned () \<longrightarrow>
      length (the_log s) + length sts \<le> length (the_log (snd (run_steps E sts s))))"
proof (induction sts arbitrary: s)
  case Nil
  show ?case by (simp add: log_kept_refl)
next
  case (Cons st rest)
  obtain r1 s1 where a: "execute_step E st s = (r1, s1)" by (cases "execute_step E st s")
  have k1: "log_kept s s1" using execute_step_kept[of s E st] a by simp
  show ?case
  proof (cases r1)
    case (Raised e)
    then show ?thesis using a k1 by simp
  next
    case (Returned u)
    have l1: "length (the_log s) < length (the_log s1)"
      using execute_step_kept[of s E st] a Returned by simp
    have e: "run_steps E (st # rest) s = run_steps E rest s1" using a Returned by simp
    show ?thesis unfolding e using Cons.IH[of s1] log_kept_trans[OF k1] l1 by auto
  qed
qed

text \<open>The log of an HDO as the store holds it: \<^verbatim>\<open>hdo.get('log', [])\<close>.\<close>

definition hdo_log :: "state \<Rightarrow> hdo \<Rightarrow> log_entry list" where
  "hdo_log s h = (case log h of None \<Rightarrow> [] | Some a \<Rightarrow> logs s a)"

lemma initialize_effect:
  "the_log (initialize_hdo_execution s) = the_log s @ [start_entry (current_plan s) (clock s)]"
  "current_plan (initialize_hdo_execution s) = current_plan s"
  "log (current_hdo (initialize_hdo_execution s)) \<noteq> None"
  "meta (current_hdo (initialize_hdo_execution s)) \<noteq> None"
  by (cases "log (current_hdo s)"; cases "meta (current_hdo s)";
      simp add: initialize_hdo_execution_def Let_def append_and_touch_def log_append_def
        touch_def the_log_def)+

lemma complete_effect:
  assumes "complete_hdo_execution s = (r, s')"
  shows "prefix (the_log s) (the_log s')"
    and "r = Returned u \<Longrightarrow> the_log s' = the_log s @ [complete_entry s]"
    and "r = Returned u \<Longrightarrow> stage (current_hdo s') = Some ''output'' \<and>
           validated (current_hdo s') = Some True"
    and "r = Raised x \<Longrightarrow> s' = s"
proof -
  obtain r1 s1 where a: "append_and_touch (complete_entry s) (clock s) s = (r1, s1)"
    by (cases "append_and_touch (complete_entry s) (clock s) s")
  note e = append_and_touch_effect[OF a]
  have "prefix (the_log s) (the_log s') \<and>
        (r = Returned u \<longrightarrow> the_log s' = the_log s @ [complete_entry s] \<and>
           stage (current_hdo s') = Some ''output'' \<and> validated (current_hdo s') = Some True) \<and>
        (r = Raised x \<longrightarrow> s' = s)"
  proof (cases r1)
    case (Raised y)
    then have "s1 = s" using e(4) by simp
    then have "r = Raised y" "s' = s" using assms a Raised
      by (simp_all add: complete_hdo_execution_def)
    then show ?thesis by simp
  next
    case (Returned v)
    then have l: "the_log s1 = the_log s @ [complete_entry s]" using e(3) by simp
    have s': "s' = s1\<lparr>current_hdo := (current_hdo s1)\<lparr>stage := Some ''output'',
                                                validated := Some True\<rparr>\<rparr>"
      and r: "r = Returned ()"
      using assms a Returned by (simp_all add: complete_hdo_execution_def)
    have "the_log s' = the_log s1" unfolding s' by (simp add: the_log_def split: option.splits)
    then show ?thesis using l r s' by simp
  qed
  then show "prefix (the_log s) (the_log s')"
    and "r = Returned u \<Longrightarrow> the_log s' = the_log s @ [complete_entry s]"
    and "r = Returned u \<Longrightarrow> stage (current_hdo s') = Some ''output'' \<and>
           validated (current_hdo s') = Some True"
    and "r = Raised x \<Longrightarrow> s' = s" by blast+
qed

lemma error_path_log:
  "the_log (record_hdo_error er s) = the_log s"
  "the_log (insert_error_record er s) = the_log s"
  "the_log (snd (build_error_record E h c e s)) = the_log s"
  by (simp_all add: record_hdo_error_def insert_error_record_def build_error_record_def
      the_log_def Let_def split: option.splits prod.splits)

lemma plan_try_log:
  assumes "plan_try E pl s = (r, s')"
  shows "prefix (the_log s @ [start_entry (current_plan s) (clock s)]) (the_log s')"
    and "r = Returned u \<Longrightarrow>
           (\<exists>s1. the_log s' = the_log s1 @ [complete_entry s1] \<and>
                 length (the_log s) + 1 + length (steps pl) \<le> length (the_log s1)) \<and>
           stage (current_hdo s') = Some ''output'' \<and> validated (current_hdo s') = Some True"
proof -
  let ?i = "initialize_hdo_execution s"
  obtain r1 s1 where a: "run_steps E (steps pl) ?i = (r1, s1)"
    by (cases "run_steps E (steps pl) ?i")
  have k: "log_kept ?i s1" using run_steps_kept[of ?i E "steps pl"] a by simp
  have i: "the_log ?i = the_log s @ [start_entry (current_plan s) (clock s)]"
    by (rule initialize_effect(1))
  have p1: "prefix (the_log s @ [start_entry (current_plan s) (clock s)]) (the_log s1)"
    using k i by (simp add: log_kept_def)
  have "prefix (the_log s @ [start_entry (current_plan s) (clock s)]) (the_log s') \<and>
        (r = Returned u \<longrightarrow>
           (\<exists>s1. the_log s' = the_log s1 @ [complete_entry s1] \<and>
                 length (the_log s) + 1 + length (steps pl) \<le> length (the_log s1)) \<and>
           stage (current_hdo s') = Some ''output'' \<and> validated (current_hdo s') = Some True)"
  proof (cases r1)
    case (Raised e)
    then have "r = Raised e" "s' = s1" using assms a by (simp_all add: plan_try_def)
    then show ?thesis using p1 by simp
  next
    case (Returned v)
    have c: "complete_hdo_execution s1 = (r, s')" using assms a Returned
      by (simp add: plan_try_def)
    have l: "length (the_log ?i) + length (steps pl) \<le> length (the_log s1)"
      using run_steps_kept[of ?i E "steps pl"] a Returned by simp
    then have l': "length (the_log s) + 1 + length (steps pl) \<le> length (the_log s1)"
      using i by simp
    have p2: "prefix (the_log s1) (the_log s')" using complete_effect(1)[OF c] .
    have p: "prefix (the_log s @ [start_entry (current_plan s) (clock s)]) (the_log s')"
      using p1 p2 by (rule prefix_order.trans)
    show ?thesis using p l' complete_effect(2)[OF c, of u] complete_effect(3)[OF c, of u]
      by blast
  qed
  then show "prefix (the_log s @ [start_entry (current_plan s) (clock s)]) (the_log s')"
    and "r = Returned u \<Longrightarrow>
           (\<exists>s1. the_log s' = the_log s1 @ [complete_entry s1] \<and>
                 length (the_log s) + 1 + length (steps pl) \<le> length (the_log s1)) \<and>
           stage (current_hdo s') = Some ''output'' \<and> validated (current_hdo s') = Some True"
    by blast+
qed

lemma run_altitude_plan_log:
  assumes "run_altitude_plan E pl h s = (r, s')"
  shows "prefix (hdo_log s h @ [start_entry pl (clock s)]) (the_log s')"
    and "r = Returned hf \<Longrightarrow>
           hf = current_hdo s' \<and>
           (\<exists>s1. the_log s' = the_log s1 @ [complete_entry s1] \<and>
                 length (hdo_log s h) + 1 + length (steps pl) \<le> length (the_log s1)) \<and>
           stage hf = Some ''output'' \<and> validated hf = Some True"
proof -
  let ?s0 = "s\<lparr>current_plan := pl, current_hdo := h\<rparr>"
  obtain r1 s1 where a: "plan_try E pl ?s0 = (r1, s1)" by (cases "plan_try E pl ?s0")
  have l0: "the_log ?s0 = hdo_log s h" by (simp add: the_log_def hdo_log_def split: option.splits)
  have p1: "prefix (hdo_log s h @ [start_entry pl (clock s)]) (the_log s1)"
    using plan_try_log(1)[OF a] l0 by simp
  have "prefix (hdo_log s h @ [start_entry pl (clock s)]) (the_log s') \<and>
        (r = Returned hf \<longrightarrow>
           hf = current_hdo s' \<and>
           (\<exists>s1. the_log s' = the_log s1 @ [complete_entry s1] \<and>
                 length (hdo_log s h) + 1 + length (steps pl) \<le> length (the_log s1)) \<and>
           stage hf = Some ''output'' \<and> validated hf = Some True)"
  proof (cases r1)
    case (Returned u)
    have e: "r = Returned (current_hdo s1)" "s' = s1"
      using assms a Returned by (auto simp add: run_altitude_plan_def)
    show ?thesis using p1 plan_try_log(2)[OF a, of u] Returned l0 e by auto
  next
    case (Raised x)
    obtain er s2 where b: "build_error_record E (current_hdo s1) None x s1 = (er, s2)"
      by (cases "build_error_record E (current_hdo s1) None x s1")
    have e: "r = Raised (runtime_error (failure_message pl er))"
      "s' = record_hdo_error er (insert_error_record er s2)"
      using assms a Raised b by (auto simp add: run_altitude_plan_def Let_def)
    have "the_log s2 = the_log s1" using error_path_log(3)[of E "current_hdo s1" None x s1] b by simp
    then have "the_log s' = the_log s1" unfolding e by (simp add: error_path_log)
    then show ?thesis using p1 e by simp
  qed
  then show "prefix (hdo_log s h @ [start_entry pl (clock s)]) (the_log s')"
    and "r = Returned hf \<Longrightarrow>
           hf = current_hdo s' \<and>
           (\<exists>s1. the_log s' = the_log s1 @ [complete_entry s1] \<and>
                 length (hdo_log s h) + 1 + length (steps pl) \<le> length (the_log s1)) \<and>
           stage hf = Some ''output'' \<and> validated hf = Some True"
    by blast+
qed

lemma run_altitude_plan_returns:
  assumes "fst (run_steps E (steps pl)
             (initialize_hdo_execution (s\<lparr>current_plan := pl, current_hdo := h\<rparr>))) = Returned ()"
  shows "\<exists>s'. run_altitude_plan E pl h s = (Returned (current_hdo s'), s')"
proof -
  let ?s0 = "s\<lparr>current_plan := pl, current_hdo := h\<rparr>"
  let ?i = "initialize_hdo_execution ?s0"
  obtain s1 where a: "run_steps E (steps pl) ?i = (Returned (), s1)"
    using assms by (cases "run_steps E (steps pl) ?i") simp
  have k: "log_kept ?i s1" using run_steps_kept[of ?i E "steps pl"] a by simp
  have "log (current_hdo s1) \<noteq> None" using k initialize_effect(3)[of ?s0]
    by (simp add: log_kept_def)
  then obtain r where r: "log (current_hdo s1) = Some r" by blast
  obtain s' where c: "complete_hdo_execution s1 = (Returned (), s')"
    by (simp add: complete_hdo_execution_def append_and_touch_Some[OF r])
  have "plan_try E pl ?s0 = (Returned (), s')" using a c by (simp add: plan_try_def)
  then have "run_altitude_plan E pl h s = (Returned (current_hdo s'), s')"
    by (simp add: run_altitude_plan_def)
  then show ?thesis by blast
qed

text \<open>
  An entry without a \<^verbatim>\<open>promotion_decision\<close> in its details
  (\<^verbatim>\<open>entry.get('details', {}).get('promotion_decision') is None\<close>), and a log of such entries.
\<close>

definition no_decision :: "log_entry \<Rightarrow> bool" where
  "no_decision entry = (dict_get (details entry) ''promotion_decision'' JNone = JNone)"

definition no_promotion :: "state \<Rightarrow> bool" where
  "no_promotion s = list_all no_decision (the_log s)"

lemma runner_entries_no_decision:
  "no_decision (start_entry pl t)"
  "no_decision (started_entry st t)"
  "no_decision (completed_entry E st t d res)"
  "no_decision (failed_entry st t d err)"
  "no_decision (skipped_entry st t)"
  "no_decision (complete_entry s)"
  by (simp_all add: no_decision_def dict_get_def start_entry_def started_entry_def
      completed_entry_def failed_entry_def skipped_entry_def complete_entry_def)

lemma no_promotion_append:
  "the_log s' = the_log s @ xs \<Longrightarrow> list_all no_decision xs \<Longrightarrow> no_promotion s \<Longrightarrow>
   no_promotion s'"
  by (simp add: no_promotion_def)

lemma no_promotion_same:
  "the_log s' = the_log s \<Longrightarrow> no_promotion s \<Longrightarrow> no_promotion s'"
  by (simp add: no_promotion_def)

lemma append_and_touch_no_promotion:
  assumes "append_and_touch e t s = (r, s')" and "no_decision e" and "no_promotion s"
  shows "no_promotion s'"
proof (cases r)
  case (Returned u)
  then have "the_log s' = the_log s @ [e]" using append_and_touch_effect(3)[OF assms(1)] by simp
  then show ?thesis using assms(2,3) by (simp add: no_promotion_def)
next
  case (Raised x)
  then have "s' = s" using append_and_touch_effect(4)[OF assms(1)] by simp
  then show ?thesis using assms(3) by simp
qed

lemma step_try_no_promotion:
  assumes "step_try E st t s = (r, s')" and "no_promotion s"
  shows "no_promotion s'"
proof -
  from step_try_effect[OF assms(1)]
  consider "the_log s' = the_log s" | "the_log s' = the_log s @ [started_entry st t]"
    | c d res where "the_log s' = the_log s @ [started_entry st t, completed_entry E st c d res]"
    by blast
  then show ?thesis
  proof cases
    case 1
    then show ?thesis using assms(2) by (simp add: no_promotion_def)
  next
    case 2
    then show ?thesis using assms(2) by (simp add: no_promotion_def runner_entries_no_decision)
  next
    case 3
    then show ?thesis using assms(2) by (simp add: no_promotion_def runner_entries_no_decision)
  qed
qed

lemma find_Some_mem: "find P xs = Some e \<Longrightarrow> e \<in> set xs \<and> P e"
  by (induction xs) (auto split: if_splits)

lemma check_promotion_needs_entry:
  assumes "truthy (check_promotion_decision s)"
  shows "\<exists>e \<in> set (the_log s). is_promotion_entry e"
proof (cases "find is_promotion_entry (rev (the_log s))")
  case None
  then show ?thesis using assms by (simp add: check_promotion_decision_def)
next
  case (Some e)
  then have "e \<in> set (rev (the_log s)) \<and> is_promotion_entry e"
    by (rule find_Some_mem)
  then show ?thesis by auto
qed

lemma no_promotion_check:
  assumes "no_promotion s"
  shows "check_promotion_decision s = JBool False"
proof (cases "find is_promotion_entry (rev (the_log s))")
  case None
  then show ?thesis by (simp add: check_promotion_decision_def)
next
  case (Some e)
  then have "e \<in> set (the_log s)" "is_promotion_entry e"
    using find_Some_mem[of is_promotion_entry "rev (the_log s)" e] by simp_all
  then have False using assms
    by (auto simp: no_promotion_def list_all_iff no_decision_def is_promotion_entry_def)
  then show ?thesis ..
qed

lemma execute_step_no_promotion:
  "no_promotion s \<longrightarrow> no_promotion (snd (execute_step E st s))"
proof (rule execute_step_cases_induct[where P = "\<lambda>s rs. no_promotion s \<longrightarrow> no_promotion (snd rs)"],
       goal_cases)
  case (1 s)
  obtain r s' where a: "append_and_touch (skipped_entry st (clock s)) (clock s) s = (r, s')"
    by (cases "append_and_touch (skipped_entry st (clock s)) (clock s) s")
  show ?case using append_and_touch_no_promotion[OF a runner_entries_no_decision(5)] a
    by (simp add: record_step_skipped_def)
next
  case (2 s u s1)
  show ?case using step_try_no_promotion[OF 2(2)] by simp
next
  case (3 s e s1 e' s2)
  have "s2 = s1" using 3(3) append_and_touch_effect(4)[of _ _ s1 "Raised e'" s2 e']
    by (simp add: record_step_failure_def)
  then show ?case using step_try_no_promotion[OF 3(2)] by simp
next
  case (4 s e s1 u s2)
  have f: "append_and_touch (failed_entry st (clock s1) (int (clock s1) - int (clock s)) e)
             (clock s1) s1 = (Returned u, s2)"
    using 4(3) by (simp add: record_step_failure_def)
  show ?case
  proof
    assume "no_promotion s"
    then have "no_promotion s1" by (rule step_try_no_promotion[OF 4(2)])
    then have "no_promotion s2"
      by (rule append_and_touch_no_promotion[OF f runner_entries_no_decision(4)])
    then have "no_promotion (sleep_ms (the_backoff_ms st) s2)" by (simp add: no_promotion_def)
    then show "no_promotion (snd (execute_step E st (sleep_ms (the_backoff_ms st) s2)))"
      using 4(5) by simp
  qed
next
  case (5 s e s1 u s2)
  have f: "append_and_touch (failed_entry st (clock s1) (int (clock s1) - int (clock s)) e)
             (clock s1) s1 = (Returned u, s2)"
    using 5(3) by (simp add: record_step_failure_def)
  show ?case
  proof
    assume "no_promotion s"
    then have "no_promotion s1" by (rule step_try_no_promotion[OF 5(2)])
    then have "no_promotion s2"
      by (rule append_and_touch_no_promotion[OF f runner_entries_no_decision(4)])
    then show "no_promotion (snd (Raised e, s2))" by simp
  qed
qed

lemma run_steps_no_promotion:
  "no_promotion s \<Longrightarrow> no_promotion (snd (run_steps E sts s))"
proof (induction sts arbitrary: s)
  case Nil
  then show ?case by simp
next
  case (Cons st rest)
  obtain r1 s1 where a: "execute_step E st s = (r1, s1)" by (cases "execute_step E st s")
  have n1: "no_promotion s1" using execute_step_no_promotion[of s E st] a Cons.prems by simp
  show ?case
  proof (cases r1)
    case (Raised e)
    then show ?thesis using a n1 by simp
  next
    case (Returned u)
    then show ?thesis using a Cons.IH[OF n1] by simp
  qed
qed

lemma initialize_no_promotion:
  "no_promotion s \<Longrightarrow> no_promotion (initialize_hdo_execution s)"
  by (simp add: no_promotion_def initialize_effect(1) runner_entries_no_decision)

lemma run_altitude_plan_no_promotion:
  assumes "list_all no_decision (hdo_log s h)"
  shows "no_promotion (snd (run_altitude_plan E pl h s))"
proof -
  let ?s0 = "s\<lparr>current_plan := pl, current_hdo := h\<rparr>"
  let ?i = "initialize_hdo_execution ?s0"
  have "the_log ?s0 = hdo_log s h" by (simp add: the_log_def hdo_log_def split: option.splits)
  then have n0: "no_promotion ?s0" using assms by (simp add: no_promotion_def)
  have ni: "no_promotion ?i" using n0 by (rule initialize_no_promotion)
  obtain r1 s1 where a: "run_steps E (steps pl) ?i = (r1, s1)"
    by (cases "run_steps E (steps pl) ?i")
  have n1: "no_promotion s1" using run_steps_no_promotion[OF ni, of E "steps pl"] a by simp
  obtain r2 s2 where p: "plan_try E pl ?s0 = (r2, s2)" by (cases "plan_try E pl ?s0")
  have n2: "no_promotion s2"
  proof (cases r1)
    case (Raised e)
    then have "s2 = s1" using a p by (simp add: plan_try_def)
    then show ?thesis using n1 by simp
  next
    case (Returned u)
    then have c: "complete_hdo_execution s1 = (r2, s2)" using a p by (simp add: plan_try_def)
    show ?thesis
    proof (cases r2)
      case (Raised x)
      then have "s2 = s1" using complete_effect(4)[OF c] by simp
      then show ?thesis using n1 by simp
    next
      case R: (Returned v)
      then have "the_log s2 = the_log s1 @ [complete_entry s1]"
        using complete_effect(2)[OF c] by simp
      then show ?thesis using n1 by (simp add: no_promotion_def runner_entries_no_decision)
    qed
  qed
  show ?thesis
  proof (cases r2)
    case (Returned u)
    then show ?thesis using p n2 by (simp add: run_altitude_plan_def)
  next
    case (Raised x)
    obtain er s3 where b: "build_error_record E (current_hdo s2) None x s2 = (er, s3)"
      by (cases "build_error_record E (current_hdo s2) None x s2")
    have "the_log s3 = the_log s2"
      using error_path_log(3)[of E "current_hdo s2" None x s2] b by simp
    then have "the_log (record_hdo_error er (insert_error_record er s3)) = the_log s2"
      by (simp add: error_path_log)
    then have "no_promotion (record_hdo_error er (insert_error_record er s3))"
      using n2 by (simp add: no_promotion_def)
    then show ?thesis using p Raised b by (simp add: run_altitude_plan_def Let_def)
  qed
qed

lemma promotion_expression_not_literal:
  assumes "py_in ''enforcer.promotion_decision == true'' expr"
  shows "expr \<noteq> ''true'' \<and> expr \<noteq> ''false''"
proof -
  have "\<not> py_in ''enforcer.promotion_decision == true'' ''true''" by code_simp
  moreover have "\<not> py_in ''enforcer.promotion_decision == true'' ''false''" by code_simp
  ultimately show ?thesis using assms by auto
qed

lemma conditional_step_skipped:
  assumes "no_promotion s"
    and "when_config st = Some w" and "condition w = Some ''conditional''"
    and "expression w = Some expr"
    and "py_in ''enforcer.promotion_decision == true'' expr"
  shows "\<not> evaluate_condition_expression expr s"
    and "\<not> should_execute_step st s"
    and "execute_step E st s = record_step_skipped st s"
proof -
  have e: "\<not> evaluate_condition_expression expr s"
    using promotion_expression_not_literal[OF assms(5)] assms(5) no_promotion_check[OF assms(1)]
    by (simp add: evaluate_condition_expression_def)
  then show "\<not> evaluate_condition_expression expr s" .
  show x: "\<not> should_execute_step st s"
    using e assms(2,3,4) by (simp add: should_execute_step_def Let_def)
  show "execute_step E st s = record_step_skipped st s"
    using x by (simp add: execute_step.simps[of E st s])
qed

subsection \<open>What the runner does to the error log\<close>

lemma append_and_touch_errs:
  "error_log (snd (append_and_touch e t s)) = error_log s"
  by (simp add: append_and_touch_def log_append_def touch_def split: option.splits)








lemma initialize_errs:
  "error_log (initialize_hdo_execution s) = error_log s"
  by (cases "log (current_hdo s)"; cases "meta (current_hdo s)";
      simp add: initialize_hdo_execution_def Let_def append_and_touch_def log_append_def
        touch_def)

lemma complete_errs:
  "error_log (snd (complete_hdo_execution s)) = error_log s"
  by (simp add: complete_hdo_execution_def append_and_touch_def log_append_def touch_def
      split: option.splits)




definition is_raised :: "'a outcome \<Rightarrow> bool" where
  "is_raised r = (case r of Raised x \<Rightarrow> True | Returned v \<Rightarrow> False)"


subsection \<open>Rejected identifiers\<close>

lemma validate_heir_ids_value_error:
  "validate_heir_ids E pid h s = Some e \<Longrightarrow> \<exists>m. e = value_error m"
  by (auto simp: validate_heir_ids_def split: if_splits option.splits)

lemma orchestra_invoke_rejected:
  assumes "validate_heir_ids E (ctx_process_id c) (ctx_hdo c) s = Some e"
  shows "\<exists>m. orchestra_invoke E a c s = (Raised (value_error m), s)"
proof -
  from validate_heir_ids_value_error[OF assms] obtain m where "e = value_error m" by blast
  then show ?thesis using assms by (auto simp: orchestra_invoke_def)
qed

lemma invoke_step_rejected:
  assumes "validate_heir_ids E (process_id (current_hdo s)) (current_hdo s) s = Some e"
  shows "\<exists>m. invoke_step E st s = (Raised (value_error m), s)"
proof -
  let ?a = "\<lparr>arg_agent_id = agent_id st, arg_action = action st,
       arg_parameters = step_parameters st, arg_step_id = step_id st,
       arg_altitude = altitude st,
       arg_timeout_seconds = (case timeout_seconds st of None \<Rightarrow> 120 | Some t \<Rightarrow> t)\<rparr>"
  let ?c = "\<lparr>ctx_process_id = process_id (current_hdo s), ctx_hdo = current_hdo s,
       ctx_plan = current_plan s\<rparr>"
  have "validate_heir_ids E (ctx_process_id ?c) (ctx_hdo ?c) s = Some e" using assms by simp
  from orchestra_invoke_rejected[OF this, of ?a]
  obtain m where "orchestra_invoke E ?a ?c s = (Raised (value_error m), s)" by blast
  then have "invoke_step E st s = (Raised (value_error m), s)"
    by (simp add: invoke_step_def Let_def)
  then show ?thesis by blast
qed

text \<open>
  The state of a run whose process id the pattern rejects: the id is the one of the runner's
  HDO, and the HDO has a log (it has one from the initialisation on).
\<close>

definition rejected_pid :: "env \<Rightarrow> state \<Rightarrow> bool" where
  "rejected_pid E s =
     (\<not> re_match E process_id_pattern (process_id (current_hdo s)) \<and>
      log (current_hdo s) \<noteq> None)"

lemma rejected_pid_validate:
  "rejected_pid E s \<Longrightarrow>
   validate_heir_ids E (process_id (current_hdo s)) (current_hdo s) s =
     Some (value_error (''Invalid process_id format: '' @ process_id (current_hdo s)))"
  by (simp add: rejected_pid_def validate_heir_ids_def)

lemma append_and_touch_rejected:
  "rejected_pid E s \<Longrightarrow> rejected_pid E (snd (append_and_touch e t s))"
  by (auto simp: rejected_pid_def append_and_touch_def log_append_def touch_def
      split: option.splits)

lemma step_try_rejected:
  assumes "rejected_pid E s"
  shows "\<exists>m s1. step_try E st t s = (Raised (value_error m), s1) \<and>
           the_log s1 = the_log s @ [started_entry st t] \<and>
           error_log s1 = error_log s \<and> rejected_pid E s1"
proof -
  obtain r where r: "log (current_hdo s) = Some r" using assms by (auto simp: rejected_pid_def)
  let ?s1 = "touch t (s\<lparr>logs := (logs s)(r := logs s r @ [started_entry st t])\<rparr>)"
  have a: "append_and_touch (started_entry st t) t s = (Returned (), ?s1)"
    by (rule append_and_touch_Some[OF r])
  have rj: "rejected_pid E ?s1" using append_and_touch_rejected[OF assms, of "started_entry st t" t] a
    by simp
  from invoke_step_rejected[OF rejected_pid_validate[OF rj], of st]
  obtain m where i: "invoke_step E st ?s1 = (Raised (value_error m), ?s1)" by blast
  have t: "step_try E st t s = (Raised (value_error m), ?s1)"
    using a i by (simp add: step_try_def record_step_start_def)
  have l: "the_log ?s1 = the_log s @ [started_entry st t]"
    using append_and_touch_effect(3)[OF a] by simp
  have e: "error_log ?s1 = error_log s"
    using append_and_touch_errs[of "started_entry st t" t s] a by simp
  show ?thesis using t l e rj by blast
qed

lemma execute_step_rejected:
  "rejected_pid E s \<longrightarrow>
     error_log (snd (execute_step E st s)) = error_log s \<and>
     rejected_pid E (snd (execute_step E st s))"
proof (rule execute_step_cases_induct[where
         P = "\<lambda>s rs. rejected_pid E s \<longrightarrow>
                error_log (snd rs) = error_log s \<and> rejected_pid E (snd rs)"], goal_cases)
  case (1 s)
  show ?case
    by (simp add: record_step_skipped_def append_and_touch_errs append_and_touch_rejected)
next
  case (2 s u s1)
  show ?case
  proof
    assume "rejected_pid E s"
    from step_try_rejected[OF this, of st "clock s"] 2(2) have False by auto
    then show "error_log (snd (Returned (), s1)) = error_log s \<and>
      rejected_pid E (snd (Returned (), s1))" ..
  qed
next
  case (3 s e s1 e' s2)
  show ?case
  proof
    assume "rejected_pid E s"
    from step_try_rejected[OF this, of st "clock s"] 3(2)
    have a: "error_log s1 = error_log s" "rejected_pid E s1" by auto
    have "s2 = snd (append_and_touch (failed_entry st (clock s1) (int (clock s1) - int (clock s)) e)
        (clock s1) s1)" using 3(3) by (simp add: record_step_failure_def)
    then show "error_log (snd (Raised e', s2)) = error_log s \<and> rejected_pid E (snd (Raised e', s2))"
      using a by (simp add: append_and_touch_errs append_and_touch_rejected)
  qed
next
  case (4 s e s1 u s2)
  show ?case
  proof
    assume "rejected_pid E s"
    from step_try_rejected[OF this, of st "clock s"] 4(2)
    have a: "error_log s1 = error_log s" "rejected_pid E s1" by auto
    have "s2 = snd (append_and_touch (failed_entry st (clock s1) (int (clock s1) - int (clock s)) e)
        (clock s1) s1)" using 4(3) by (simp add: record_step_failure_def)
    then have b: "error_log s2 = error_log s" "rejected_pid E s2"
      using a by (simp_all add: append_and_touch_errs append_and_touch_rejected)
    have c: "error_log (sleep_ms (the_backoff_ms st) s2) = error_log s"
      "rejected_pid E (sleep_ms (the_backoff_ms st) s2)"
      using b by (simp_all add: sleep_ms_def rejected_pid_def)
    show "error_log (snd (execute_step E st (sleep_ms (the_backoff_ms st) s2))) = error_log s \<and>
      rejected_pid E (snd (execute_step E st (sleep_ms (the_backoff_ms st) s2)))"
      using 4(5) c by simp
  qed
next
  case (5 s e s1 u s2)
  show ?case
  proof
    assume "rejected_pid E s"
    from step_try_rejected[OF this, of st "clock s"] 5(2)
    have a: "error_log s1 = error_log s" "rejected_pid E s1" by auto
    have "s2 = snd (append_and_touch (failed_entry st (clock s1) (int (clock s1) - int (clock s)) e)
        (clock s1) s1)" using 5(3) by (simp add: record_step_failure_def)
    then show "error_log (snd (Raised e, s2)) = error_log s \<and> rejected_pid E (snd (Raised e, s2))"
      using a by (simp add: append_and_touch_errs append_and_touch_rejected)
  qed
qed

lemma no_when_executes:
  "when_config st = None \<Longrightarrow> should_execute_step st s"
  by (simp add: should_execute_step_def)

lemma execute_step_rejected_raises:
  assumes w: "when_config st = None"
  shows "rejected_pid E s \<longrightarrow>
     is_raised (fst (execute_step E st s)) \<and>
     prefix (the_log s @ [started_entry st (clock s)]) (the_log (snd (execute_step E st s)))"
proof (rule execute_step_cases_induct[where
         P = "\<lambda>s rs. rejected_pid E s \<longrightarrow>
                is_raised (fst rs) \<and>
                prefix (the_log s @ [started_entry st (clock s)]) (the_log (snd rs))"], goal_cases)
  case (1 s)
  then show ?case using no_when_executes[OF w, of s] by simp
next
  case (2 s u s1)
  show ?case
  proof
    assume "rejected_pid E s"
    from step_try_rejected[OF this, of st "clock s"] 2(2) have False by auto
    then show "is_raised (fst (Returned (), s1)) \<and>
      prefix (the_log s @ [started_entry st (clock s)]) (the_log (snd (Returned (), s1)))" ..
  qed
next
  case (3 s e s1 e' s2)
  show ?case
  proof
    assume "rejected_pid E s"
    from step_try_rejected[OF this, of st "clock s"] 3(2)
    have a: "the_log s1 = the_log s @ [started_entry st (clock s)]" by auto
    have f: "append_and_touch (failed_entry st (clock s1) (int (clock s1) - int (clock s)) e)
        (clock s1) s1 = (Raised e', s2)" using 3(3) by (simp add: record_step_failure_def)
    have "s2 = s1" using append_and_touch_effect(4)[OF f] by simp
    then show "is_raised (fst (Raised e', s2)) \<and>
      prefix (the_log s @ [started_entry st (clock s)]) (the_log (snd (Raised e', s2)))"
      using a by (simp add: is_raised_def)
  qed
next
  case (4 s e s1 u s2)
  show ?case
  proof
    assume rj: "rejected_pid E s"
    from step_try_rejected[OF this, of st "clock s"] 4(2)
    have a: "the_log s1 = the_log s @ [started_entry st (clock s)]" "rejected_pid E s1" by auto
    have f: "append_and_touch (failed_entry st (clock s1) (int (clock s1) - int (clock s)) e)
        (clock s1) s1 = (Returned u, s2)" using 4(3) by (simp add: record_step_failure_def)
    have l2: "prefix (the_log s1) (the_log s2)"
      using append_and_touch_kept(1)[OF f] by (simp add: log_kept_def)
    have r2: "rejected_pid E s2"
      using append_and_touch_rejected[OF a(2),
          of "failed_entry st (clock s1) (int (clock s1) - int (clock s)) e" "clock s1"] f
      by simp
    let ?s3 = "sleep_ms (the_backoff_ms st) s2"
    have r3: "rejected_pid E ?s3" using r2 by (simp add: sleep_ms_def rejected_pid_def)
    have l3: "prefix (the_log s1) (the_log ?s3)" using l2 by simp
    have l4: "prefix (the_log ?s3) (the_log (snd (execute_step E st ?s3)))"
      using execute_step_kept[of ?s3 E st] by (simp add: log_kept_def)
    have "prefix (the_log s1) (the_log (snd (execute_step E st ?s3)))"
      using l3 l4 by (rule prefix_order.trans)
    then show "is_raised (fst (execute_step E st ?s3)) \<and>
      prefix (the_log s @ [started_entry st (clock s)]) (the_log (snd (execute_step E st ?s3)))"
      using 4(5) r3 a(1) by simp
  qed
next
  case (5 s e s1 u s2)
  show ?case
  proof
    assume "rejected_pid E s"
    from step_try_rejected[OF this, of st "clock s"] 5(2)
    have a: "the_log s1 = the_log s @ [started_entry st (clock s)]" by auto
    have f: "append_and_touch (failed_entry st (clock s1) (int (clock s1) - int (clock s)) e)
        (clock s1) s1 = (Returned u, s2)" using 5(3) by (simp add: record_step_failure_def)
    have l2: "prefix (the_log s1) (the_log s2)"
      using append_and_touch_kept(1)[OF f] by (simp add: log_kept_def)
    then show "is_raised (fst (Raised e, s2)) \<and>
      prefix (the_log s @ [started_entry st (clock s)]) (the_log (snd (Raised e, s2)))"
      using a by (simp add: is_raised_def)
  qed
qed

lemma run_steps_rejected:
  "rejected_pid E s \<Longrightarrow>
   error_log (snd (run_steps E sts s)) = error_log s \<and> rejected_pid E (snd (run_steps E sts s))"
proof (induction sts arbitrary: s)
  case Nil
  then show ?case by simp
next
  case (Cons st rest)
  obtain r1 s1 where a: "execute_step E st s = (r1, s1)" by (cases "execute_step E st s")
  have p1: "error_log s1 = error_log s" "rejected_pid E s1"
    using execute_step_rejected[of E s st] a Cons.prems by simp_all
  show ?case
  proof (cases r1)
    case (Raised e)
    then show ?thesis using a p1 by simp
  next
    case (Returned u)
    then show ?thesis using a p1 Cons.IH[OF p1(2)] by simp
  qed
qed

lemma initialize_frame:
  "process_id (current_hdo (initialize_hdo_execution s)) = process_id (current_hdo s)"
  "clock (initialize_hdo_execution s) = clock s"
  by (cases "log (current_hdo s)"; cases "meta (current_hdo s)";
      simp add: initialize_hdo_execution_def Let_def append_and_touch_def log_append_def
        touch_def)+

lemma initialize_rejected:
  "\<not> re_match E process_id_pattern (process_id (current_hdo s)) \<Longrightarrow>
   rejected_pid E (initialize_hdo_execution s)"
  using initialize_effect(3)[of s] by (simp add: rejected_pid_def initialize_frame)

lemma plan_try_rejected:
  assumes "\<not> re_match E process_id_pattern (process_id (current_hdo s))"
  shows "error_log (snd (plan_try E pl s)) = error_log s"
    and "steps pl = [] \<Longrightarrow> \<not> is_raised (fst (plan_try E pl s))"
    and "steps pl = st # rest \<Longrightarrow> when_config st = None \<Longrightarrow>
           is_raised (fst (plan_try E pl s)) \<and>
           prefix (the_log s @ [start_entry (current_plan s) (clock s), started_entry st (clock s)])
             (the_log (snd (plan_try E pl s)))"
proof -
  let ?i = "initialize_hdo_execution s"
  have ri: "rejected_pid E ?i" by (rule initialize_rejected[OF assms])
  obtain r1 s1 where a: "run_steps E (steps pl) ?i = (r1, s1)"
    by (cases "run_steps E (steps pl) ?i")
  have e1: "error_log s1 = error_log s" "rejected_pid E s1"
    using run_steps_rejected[OF ri, of "steps pl"] a by (simp_all add: initialize_errs)
  show "error_log (snd (plan_try E pl s)) = error_log s"
    using a e1 by (cases r1) (simp_all add: plan_try_def complete_errs)
  show "\<not> is_raised (fst (plan_try E pl s))" if "steps pl = []"
  proof -
    obtain r where r: "log (current_hdo ?i) = Some r" using ri by (auto simp: rejected_pid_def)
    show ?thesis using that
      by (simp add: plan_try_def complete_hdo_execution_def append_and_touch_Some[OF r]
          is_raised_def)
  qed
  show "is_raised (fst (plan_try E pl s)) \<and>
        prefix (the_log s @ [start_entry (current_plan s) (clock s), started_entry st (clock s)])
          (the_log (snd (plan_try E pl s)))"
    if s: "steps pl = st # rest" and w: "when_config st = None"
  proof -
    obtain r2 s2 where b: "execute_step E st ?i = (r2, s2)" by (cases "execute_step E st ?i")
    from execute_step_rejected_raises[OF w, of E ?i] ri b
    have x: "is_raised r2" "prefix (the_log ?i @ [started_entry st (clock ?i)]) (the_log s2)"
      by simp_all
    from x(1) obtain e where r2: "r2 = Raised e" by (cases r2) (simp_all add: is_raised_def)
    have "plan_try E pl s = (Raised e, s2)" using s b r2 by (simp add: plan_try_def)
    then show ?thesis using x(2)
      by (simp add: is_raised_def initialize_effect(1) initialize_frame)
  qed
qed

section \<open>Sample inputs\<close>

text \<open>
  Concrete inputs for the evaluations below, all of them ASCII text: an environment whose
  \<open>n\<close>-th UUID is \<^verbatim>\<open>uuid-\<close> followed by \<open>n\<close> zeros and whose \<^verbatim>\<open>str.lower\<close>, \<^verbatim>\<open>len\<close> and
  \<^verbatim>\<open>re.match\<close> are the ASCII functions above, an HDO whose log, meta and payload are the objects
  \<open>0\<close>, \<open>1\<close> and \<open>2\<close> of the store, and a store in which these objects are an empty list
  and two empty dicts.
\<close>

definition sample_env :: env where
  "sample_env =
     \<lparr>uuid4 = (\<lambda>n. ''uuid-'' @ replicate n (CHR ''0'')),
      str_value = (\<lambda>v. ''<value>''),
      str_result_200 = (\<lambda>r. ''<result>''),
      strftime = (\<lambda>t. ''<time>''),
      str_lower = lower,
      str_len = length,
      re_match = ascii_rx_match\<rparr>"

definition sample_hdo :: hdo where
  "sample_hdo =
     \<lparr>process_id = ''PROC-demo-20250101-120000-001'', blueprint_id = None, stage = None,
      validated = None, promoted_to = None, payload = Some 2, meta = Some 1, log = Some 0,
      timestamp_last_touched = None\<rparr>"

definition empty_plan :: plan where
  "empty_plan = \<lparr>plan_id = ''plan-1'', version = ''1.0.0'', steps = []\<rparr>"

definition sample_state :: state where
  "sample_state =
     \<lparr>current_hdo = sample_hdo, current_plan = empty_plan,
      logs = (\<lambda>r. []), metas = (\<lambda>r. empty_meta), payloads = (\<lambda>r. []),
      next_ref = 3, clock = 0, uuid_calls = 0, error_log = []\<rparr>"

definition plain_step :: "string \<Rightarrow> string \<Rightarrow> string \<Rightarrow> step" where
  "plain_step sid agent act =
     \<lparr>step_id = sid, agent_id = agent, action = act, altitude = 20000, parameters = None,
      timeout_seconds = None, when_config = None, retry_policy = None\<rparr>"

definition one_step_plan :: "step \<Rightarrow> plan" where
  "one_step_plan st = \<lparr>plan_id = ''plan-1'', version = ''1.0.0'', steps = [st]\<rparr>"

definition two_step_plan :: plan where
  "two_step_plan =
     \<lparr>plan_id = ''plan-1'', version = ''1.0.0'',
      steps = [plain_step ''s1'' ''input-mapper'' ''map'',
               plain_step ''s2'' ''input-validator'' ''validate'']\<rparr>"

text \<open>
  A step whose delegate raises on every attempt: the database agent with a mode other than
  \<^verbatim>\<open>plan\<close> and \<^verbatim>\<open>apply\<close>, retried on \<^verbatim>\<open>agent_failure\<close> up to \<open>n\<close> times.
\<close>

definition bad_db_step :: "int \<Rightarrow> step" where
  "bad_db_step n =
     (plain_step ''s1'' ''middle-db-agent'' ''apply'')
       \<lparr>parameters := Some [(''mode'', JStr ''rollback'')],
        retry_policy := Some \<lparr>max_retries = Some n, retry_on = Some [''agent_failure''],
                                backoff_seconds = Some 0\<rparr>\<rparr>"

definition entry_view :: "log_entry \<Rightarrow> string \<times> string \<times> string" where
  "entry_view e = (entry_agent_id e, entry_action e, status e)"

definition failed_count :: "string \<Rightarrow> state \<Rightarrow> nat" where
  "failed_count sid s = length (filter (failed_for sid) (the_log s))"

section \<open>Substring tests, severity and dispatch\<close>


text \<open>
  Claim C7. \<^verbatim>\<open>build_error_record\<close> assigns the severity of the record first match wins, on
  the lower-cased message and then on the exception type: critical phrases, then high
  phrases, then \<^verbatim>\<open>ValueError\<close>/\<^verbatim>\<open>KeyError\<close>/\<^verbatim>\<open>AttributeError\<close> as medium, then
  \<^verbatim>\<open>Warning\<close>/\<^verbatim>\<open>UserWarning\<close> as low, and high otherwise. For every environment (so for
  Python's own \<^verbatim>\<open>str.lower\<close>), every HDO, context, exception and state, the severity of the
  record built is the one \<^verbatim>\<open>_determine_error_severity\<close> computes, which is the one the policy
  of the specification gives; an exception that matches no rule gets \<^verbatim>\<open>high\<close>.
\<close>

theorem severity_first_match_wins:
  "severity (fst (build_error_record E h ctx err s)) = severity_policy E err \<and>
   determine_error_severity E err = severity_policy E err \<and>
   (rule_critical E err \<or> rule_high E err \<or> rule_medium err \<or> rule_low err \<or>
    severity (fst (build_error_record E h ctx err s)) = ''high'')"
  by (simp add: build_error_record_def determine_error_severity_def severity_policy_def
      rule_critical_def rule_high_def rule_medium_def rule_low_def msg_mentions_def
      critical_keywords_def high_keywords_def Let_def)

lemma severity_policy_examples:
  "severity_policy sample_env \<lparr>exn_type = ''RuntimeError'', exn_msg = ''Agent x failed''\<rparr> = ''high''"
  "severity_policy sample_env \<lparr>exn_type = ''UserWarning'', exn_msg = ''Request TIMEOUT''\<rparr> = ''high''"
  "severity_policy sample_env \<lparr>exn_type = ''UserWarning'', exn_msg = ''deprecated''\<rparr> = ''low''"
  "severity_policy sample_env \<lparr>exn_type = ''OSError'', exn_msg = ''Disk FULL on /var''\<rparr> = ''critical''"
  by code_simp+

theorem severity_first_match_wins_witness:
  "severity (fst (build_error_record sample_env sample_hdo None
      \<lparr>exn_type = ''RuntimeError'', exn_msg = ''Agent x failed''\<rparr> sample_state)) = ''high'' \<and>
   severity (fst (build_error_record sample_env sample_hdo None
      \<lparr>exn_type = ''UserWarning'', exn_msg = ''Request TIMEOUT''\<rparr> sample_state)) = ''high'' \<and>
   severity (fst (build_error_record sample_env sample_hdo None
      \<lparr>exn_type = ''UserWarning'', exn_msg = ''deprecated''\<rparr> sample_state)) = ''low'' \<and>
   severity (fst (build_error_record sample_env sample_hdo None
      \<lparr>exn_type = ''OSError'', exn_msg = ''Disk FULL on /var''\<rparr> sample_state)) = ''critical''"
  using severity_first_match_wins [of sample_env sample_hdo None
      "\<lparr>exn_type = ''RuntimeError'', exn_msg = ''Agent x failed''\<rparr>" sample_state]
    severity_first_match_wins [of sample_env sample_hdo None
      "\<lparr>exn_type = ''UserWarning'', exn_msg = ''Request TIMEOUT''\<rparr>" sample_state]
    severity_first_match_wins [of sample_env sample_hdo None
      "\<lparr>exn_type = ''UserWarning'', exn_msg = ''deprecated''\<rparr>" sample_state]
    severity_first_match_wins [of sample_env sample_hdo None
      "\<lparr>exn_type = ''OSError'', exn_msg = ''Disk FULL on /var''\<rparr>" sample_state]
  by (simp only: severity_policy_examples simp_thms)




section \<open>Retry bound, shallow copy and identifiers\<close>

text \<open>
  Claim C2: a step with \<^verbatim>\<open>max_retries = N\<close> whose delegate always fails, with a matching
  \<^verbatim>\<open>retry_on\<close>, leaves exactly \<open>N + 1\<close> failed entries. The source counts the failed
  entries of the step after the current failure has been recorded, so the first failure
  already counts as one retry: with \<open>N = 1\<close> no retry happens and the log holds one
  failed entry, with \<open>N = 2\<close> it holds two.
\<close>

theorem retry_bound_off_by_one:
  "(case run_altitude_plan sample_env (one_step_plan (bad_db_step 1)) sample_hdo sample_state of
      (Returned h, s) \<Rightarrow> (''returned'', 0)
    | (Raised e, s) \<Rightarrow> (exn_type e, failed_count ''s1'' s)) = (''RuntimeError'', 1) \<and>
   (case run_altitude_plan sample_env (one_step_plan (bad_db_step 2)) sample_hdo sample_state of
      (Returned h, s) \<Rightarrow> (''returned'', 0)
    | (Raised e, s) \<Rightarrow> (exn_type e, failed_count ''s1'' s)) = (''RuntimeError'', 2)"
  by code_simp

text \<open>
  Claim C4: the caller's HDO, with its nested log, meta and payload, is unchanged by the
  call. \<^verbatim>\<open>hdo.copy()\<close> copies the top-level dict only: the log list and the meta dict of
  the caller are the objects the runner appends to and writes into. After a run of the
  empty plan the caller's log object holds two entries and its meta object has gained
  \<^verbatim>\<open>altitude_trace\<close>; only the top-level keys of the caller's dict are untouched.
\<close>

theorem shallow_copy_mutates_caller:
  "logs sample_state 0 = [] \<and> altitude_trace (metas sample_state 1) = None \<and>
   (case run_altitude_plan sample_env empty_plan sample_hdo sample_state of
      (Returned h, s) \<Rightarrow>
        (map entry_view (logs s 0), altitude_trace (metas s 1), log h, timestamp_last_touched h)
    | (Raised e, s) \<Rightarrow> ([], None, None, None)) =
   ([(''orchestra-runner'', ''start_orchestration'', ''started''),
     (''orchestra-runner'', ''complete_orchestration'', ''completed'')],
    Some [], Some 0, Some 0)"
  by code_simp

text \<open>
  \<^verbatim>\<open>timeout_seconds\<close> is handed from the step to \<^verbatim>\<open>orchestra_invoke\<close> and on to the
  delegate, and the delegate does not read it: the outcome and the state after the
  delegate, after \<^verbatim>\<open>orchestra_invoke\<close> and after \<^verbatim>\<open>_invoke_step\<close> are the same for every
  value of it. Whether an awaited delegate is cut off after that many seconds of wall-clock
  time is outside this model, whose clock only adds up the sleeps.
\<close>

lemma delegate_ignores_timeout:
  "delegate_to_agent E a act ps t s = delegate_to_agent E a act ps t' s \<and>
   orchestra_invoke E (args\<lparr>arg_timeout_seconds := t\<rparr>) ctx s =
     orchestra_invoke E (args\<lparr>arg_timeout_seconds := t'\<rparr>) ctx s \<and>
   invoke_step E (st\<lparr>timeout_seconds := tt\<rparr>) s = invoke_step E (st\<lparr>timeout_seconds := tt'\<rparr>) s"
proof -
  have d: "delegate_to_agent E a act ps t s = delegate_to_agent E a act ps t' s"
    by (simp add: delegate_to_agent_def)
  have o: "orchestra_invoke E x ctx' s = orchestra_invoke E (x\<lparr>arg_timeout_seconds := 0\<rparr>) ctx' s"
    for x ctx'
  proof -
    let ?s1 = "s\<lparr>uuid_calls := Suc (uuid_calls s)\<rparr>"
    obtain r2 s2 where p: "delegate_to_agent E (arg_agent_id x) (arg_action x)
        (arg_parameters x) (arg_timeout_seconds x) ?s1 = (r2, s2)"
      by (cases "delegate_to_agent E (arg_agent_id x) (arg_action x)
        (arg_parameters x) (arg_timeout_seconds x) ?s1")
    have p0: "delegate_to_agent E (arg_agent_id x) (arg_action x) (arg_parameters x) 0 ?s1 = (r2, s2)"
      using p by (simp add: delegate_to_agent_def)
    show ?thesis
      by (cases r2) (simp_all add: orchestra_invoke_def p p0 Let_def split: option.splits)
  qed
  have o2: "orchestra_invoke E (args\<lparr>arg_timeout_seconds := t\<rparr>) ctx s =
     orchestra_invoke E (args\<lparr>arg_timeout_seconds := t'\<rparr>) ctx s"
    using o[of "args\<lparr>arg_timeout_seconds := t\<rparr>" ctx] o[of "args\<lparr>arg_timeout_seconds := t'\<rparr>" ctx]
    by simp
  have i: "invoke_step E (st\<lparr>timeout_seconds := x\<rparr>) s = invoke_step E (st\<lparr>timeout_seconds := None\<rparr>) s"
    for x
    unfolding invoke_step_def Let_def
    using o[of "\<lparr>arg_agent_id = agent_id st, arg_action = action st,
        arg_parameters = step_parameters st, arg_step_id = step_id st,
        arg_altitude = altitude st,
        arg_timeout_seconds = (case x of None \<Rightarrow> 120 | Some t \<Rightarrow> t)\<rparr>"
        "\<lparr>ctx_process_id = process_id (current_hdo s), ctx_hdo = current_hdo s,
         ctx_plan = current_plan s\<rparr>"]
      o[of "\<lparr>arg_agent_id = agent_id st, arg_action = action st,
        arg_parameters = step_parameters st, arg_step_id = step_id st,
        arg_altitude = altitude st,
        arg_timeout_seconds = 120\<rparr>"
        "\<lparr>ctx_process_id = process_id (current_hdo s), ctx_hdo = current_hdo s,
         ctx_plan = current_plan s\<rparr>"]
    by (simp add: step_parameters_def)
  show ?thesis using d o2 i[of tt] i[of tt'] by simp
qed

text \<open>
  Claim C1, as stated: with a malformed process id the runner raises before any step runs,
  appends nothing to the log and builds no error record, for every plan. The runner does
  not validate identifiers; \<^verbatim>\<open>orchestra_invoke\<close> does, once per step attempt. With the
  malformed id \<^verbatim>\<open>not-a-process-id\<close> the empty plan runs to completion and appends two
  entries, and the two-step plan appends three entries and builds an error record.
\<close>

theorem invalid_id_counterexample:
  "\<not> re_match sample_env process_id_pattern ''not-a-process-id'' \<and>
   (case run_altitude_plan sample_env empty_plan
           (sample_hdo\<lparr>process_id := ''not-a-process-id''\<rparr>) sample_state of
      (Returned h, s) \<Rightarrow> (True, length (logs s 0), length (error_log s))
    | (Raised e, s) \<Rightarrow> (False, 0, 0)) = (True, 2, 0) \<and>
   (case run_altitude_plan sample_env two_step_plan
           (sample_hdo\<lparr>process_id := ''not-a-process-id''\<rparr>) sample_state of
      (Returned h, s) \<Rightarrow> (''returned'', [], 0)
    | (Raised e, s) \<Rightarrow> (exn_type e, map entry_view (logs s 0), length (error_log s))) =
   (''RuntimeError'',
    [(''orchestra-runner'', ''start_orchestration'', ''started''),
     (''input-mapper'', ''map'', ''started''),
     (''input-mapper'', ''map'', ''failed'')], 1)"
  by code_simp


section \<open>The log is append-only\<close>

text \<open>
  Claim C8. The log of the runner's HDO only grows at its end. Each operation of the runner
  leaves the log it finds as a prefix of the log it leaves: the four recording functions
  (start, completion, failure, skip), the completion of the run and the initialisation append
  one entry; the application of \<^verbatim>\<open>hdo_updates\<close>, the invocation of a step, the back-off sleep
  and the error recording (builder, sink and \<^verbatim>\<open>_record_hdo_error\<close>) leave the log as it is;
  so do one attempt of a step, a step with its retries, and the loop over the steps. For the
  whole invocation the log the caller's HDO had is a prefix of the final log, and when the
  invocation returns, the log of the returned HDO has at least as many entries as the plan
  has steps (in fact two more: the start and the completion entries).
\<close>

theorem log_append_only:
  "prefix (the_log s) (the_log (snd (record_step_start st t s))) \<and>
   prefix (the_log s) (the_log (snd (record_step_completion E st t t' d res s))) \<and>
   prefix (the_log s) (the_log (snd (record_step_failure st t t' d err s))) \<and>
   prefix (the_log s) (the_log (snd (record_step_skipped st s))) \<and>
   the_log (snd (apply_hdo_updates u s)) = the_log s \<and>
   the_log (snd (invoke_step E st s)) = the_log s \<and>
   the_log (sleep_ms ms s) = the_log s \<and>
   the_log (record_hdo_error er (insert_error_record er
      (snd (build_error_record E (current_hdo s) c err s)))) = the_log s \<and>
   prefix (the_log s) (the_log (initialize_hdo_execution s)) \<and>
   prefix (the_log s) (the_log (snd (complete_hdo_execution s))) \<and>
   prefix (the_log s) (the_log (snd (step_try E st t s))) \<and>
   prefix (the_log s) (the_log (snd (execute_step E st s))) \<and>
   prefix (the_log s) (the_log (snd (run_steps E sts s))) \<and>
   prefix (hdo_log s h) (the_log (snd (run_altitude_plan E pl h s))) \<and>
   (fst (run_altitude_plan E pl h s) = Returned hf \<longrightarrow>
      hdo_log (snd (run_altitude_plan E pl h s)) hf = the_log (snd (run_altitude_plan E pl h s)) \<and>
      length (steps pl) + 2 \<le> length (hdo_log (snd (run_altitude_plan E pl h s)) hf))"
proof -
  have rec: "prefix (the_log s) (the_log (snd (append_and_touch e x s)))" for e x
  proof -
    obtain r s' where a: "append_and_touch e x s = (r, s')" by (cases "append_and_touch e x s")
    show ?thesis using append_and_touch_kept(1)[OF a] a by (simp add: log_kept_def)
  qed
  have c1: "prefix (the_log s) (the_log (snd (record_step_start st t s)))"
    unfolding record_step_start_def by (rule rec)
  have c2: "prefix (the_log s) (the_log (snd (record_step_completion E st t t' d res s)))"
    unfolding record_step_completion_def by (rule rec)
  have c3: "prefix (the_log s) (the_log (snd (record_step_failure st t t' d err s)))"
    unfolding record_step_failure_def by (rule rec)
  have c4: "prefix (the_log s) (the_log (snd (record_step_skipped st s)))"
    unfolding record_step_skipped_def by (rule rec)
  have c5: "the_log (snd (apply_hdo_updates u s)) = the_log s"
  proof -
    obtain r s' where a: "apply_hdo_updates u s = (r, s')" by (cases "apply_hdo_updates u s")
    show ?thesis using apply_hdo_updates_frame[OF a] the_log_cong[of s' s] a by simp
  qed
  have c6: "the_log (snd (invoke_step E st s)) = the_log s"
  proof -
    obtain r s' where a: "invoke_step E st s = (r, s')" by (cases "invoke_step E st s")
    show ?thesis using invoke_step_log(3)[OF a] a by simp
  qed
  have c7: "the_log (sleep_ms ms s) = the_log s" by simp
  have c8: "the_log (record_hdo_error er (insert_error_record er
      (snd (build_error_record E (current_hdo s) c err s)))) = the_log s"
    by (simp add: error_path_log)
  have c9: "prefix (the_log s) (the_log (initialize_hdo_execution s))"
    by (simp add: initialize_effect(1))
  have c10: "prefix (the_log s) (the_log (snd (complete_hdo_execution s)))"
  proof -
    obtain r s' where a: "complete_hdo_execution s = (r, s')"
      by (cases "complete_hdo_execution s")
    show ?thesis using complete_effect(1)[OF a] a by simp
  qed
  have c11: "prefix (the_log s) (the_log (snd (step_try E st t s)))"
  proof -
    obtain r s' where a: "step_try E st t s = (r, s')" by (cases "step_try E st t s")
    show ?thesis using step_try_kept[OF a] a by (simp add: log_kept_def)
  qed
  have c12: "prefix (the_log s) (the_log (snd (execute_step E st s)))"
    using execute_step_kept[of s E st] by (simp add: log_kept_def)
  have c13: "prefix (the_log s) (the_log (snd (run_steps E sts s)))"
    using run_steps_kept[of s E sts] by (simp add: log_kept_def)
  obtain r s' where a: "run_altitude_plan E pl h s = (r, s')"
    by (cases "run_altitude_plan E pl h s")
  have "prefix (hdo_log s h @ [start_entry pl (clock s)]) (the_log s')"
    by (rule run_altitude_plan_log(1)[OF a])
  then have c14: "prefix (hdo_log s h) (the_log (snd (run_altitude_plan E pl h s)))"
    using a by (simp add: append_prefixD)
  have c15: "fst (run_altitude_plan E pl h s) = Returned hf \<longrightarrow>
      hdo_log (snd (run_altitude_plan E pl h s)) hf = the_log (snd (run_altitude_plan E pl h s)) \<and>
      length (steps pl) + 2 \<le> length (hdo_log (snd (run_altitude_plan E pl h s)) hf)"
  proof
    assume "fst (run_altitude_plan E pl h s) = Returned hf"
    then have r: "r = Returned hf" using a by simp
    note f = run_altitude_plan_log(2)[OF a r]
    have h: "hdo_log s' hf = the_log s'" using f by (simp add: hdo_log_def the_log_def)
    from f obtain s1 where "the_log s' = the_log s1 @ [complete_entry s1]"
      and "length (hdo_log s h) + 1 + length (steps pl) \<le> length (the_log s1)" by blast
    then have "length (steps pl) + 2 \<le> length (the_log s')" by simp
    then show "hdo_log (snd (run_altitude_plan E pl h s)) hf =
        the_log (snd (run_altitude_plan E pl h s)) \<and>
      length (steps pl) + 2 \<le> length (hdo_log (snd (run_altitude_plan E pl h s)) hf)"
      using h a by simp
  qed
  show ?thesis using c1 c2 c3 c4 c5 c6 c7 c8 c9 c10 c11 c12 c13 c14 c15 by blast
qed

lemma two_step_run_returns:
  "fst (run_altitude_plan sample_env two_step_plan sample_hdo sample_state) =
   Returned (current_hdo (snd (run_altitude_plan sample_env two_step_plan sample_hdo sample_state)))"
  by code_simp

theorem log_append_only_witness:
  "fst (run_altitude_plan sample_env two_step_plan sample_hdo sample_state) =
     Returned (current_hdo (snd (run_altitude_plan sample_env two_step_plan sample_hdo sample_state))) \<and>
   length (steps two_step_plan) + 2 \<le>
     length (hdo_log (snd (run_altitude_plan sample_env two_step_plan sample_hdo sample_state))
       (current_hdo (snd (run_altitude_plan sample_env two_step_plan sample_hdo sample_state))))"
  using log_append_only [where E = sample_env and pl = two_step_plan and h = sample_hdo
      and s = sample_state
      and hf = "current_hdo (snd (run_altitude_plan sample_env two_step_plan sample_hdo sample_state))"]
    two_step_run_returns
  by blast

section \<open>Successful runs\<close>

text \<open>
  Claim C5. When the loop over the steps of the plan ends without an exception (every step
  was completed or skipped, or failed and was recovered by a retry), \<^verbatim>\<open>run_altitude_plan\<close>
  returns the runner's HDO; the last entry of its log is the \<^verbatim>\<open>complete_orchestration\<close>
  entry of the runner, with status \<^verbatim>\<open>completed\<close>, and its \<^verbatim>\<open>stage\<close> is \<^verbatim>\<open>output\<close> and
  \<^verbatim>\<open>validated\<close> is true. For the plan of the two steps \<^verbatim>\<open>s1\<close> (\<^verbatim>\<open>input-mapper\<close>, \<^verbatim>\<open>map\<close>)
  and \<^verbatim>\<open>s2\<close> (\<^verbatim>\<open>input-validator\<close>, \<^verbatim>\<open>validate\<close>), the process id
  \<^verbatim>\<open>PROC-demo-20250101-120000-001\<close> and an empty log, the returned HDO has these two values
  and six log entries: start, \<^verbatim>\<open>s1\<close> started and completed, \<^verbatim>\<open>s2\<close> started and completed,
  completion.
\<close>

theorem successful_run_completes:
  "(fst (run_steps E (steps pl)
          (initialize_hdo_execution (s\<lparr>current_plan := pl, current_hdo := h\<rparr>))) = Returned () \<longrightarrow>
      fst (run_altitude_plan E pl h s) = Returned (current_hdo (snd (run_altitude_plan E pl h s))) \<and>
      the_log (snd (run_altitude_plan E pl h s)) \<noteq> [] \<and>
      entry_view (last (the_log (snd (run_altitude_plan E pl h s)))) =
        (''orchestra-runner'', ''complete_orchestration'', ''completed'') \<and>
      stage (current_hdo (snd (run_altitude_plan E pl h s))) = Some ''output'' \<and>
      validated (current_hdo (snd (run_altitude_plan E pl h s))) = Some True) \<and>
   process_id sample_hdo = ''PROC-demo-20250101-120000-001'' \<and>
   hdo_log sample_state sample_hdo = [] \<and>
   map (\<lambda>st. (step_id st, agent_id st, action st)) (steps two_step_plan) =
     [(''s1'', ''input-mapper'', ''map''), (''s2'', ''input-validator'', ''validate'')] \<and>
   (case run_altitude_plan sample_env two_step_plan sample_hdo sample_state of
      (Returned hf, s') \<Rightarrow>
        (stage hf, validated hf,
         map (\<lambda>e. (entry_view e, dict_get (details e) ''step_id'' JNone)) (hdo_log s' hf))
    | (Raised e, s') \<Rightarrow> (None, None, [])) =
   (Some ''output'', Some True,
    [((''orchestra-runner'', ''start_orchestration'', ''started''), JNone),
     ((''input-mapper'', ''map'', ''started''), JStr ''s1''),
     ((''input-mapper'', ''map'', ''completed''), JStr ''s1''),
     ((''input-validator'', ''validate'', ''started''), JStr ''s2''),
     ((''input-validator'', ''validate'', ''completed''), JStr ''s2''),
     ((''orchestra-runner'', ''complete_orchestration'', ''completed''), JNone)])"
proof -
  have g: "fst (run_altitude_plan E pl h s) = Returned (current_hdo (snd (run_altitude_plan E pl h s))) \<and>
      the_log (snd (run_altitude_plan E pl h s)) \<noteq> [] \<and>
      entry_view (last (the_log (snd (run_altitude_plan E pl h s)))) =
        (''orchestra-runner'', ''complete_orchestration'', ''completed'') \<and>
      stage (current_hdo (snd (run_altitude_plan E pl h s))) = Some ''output'' \<and>
      validated (current_hdo (snd (run_altitude_plan E pl h s))) = Some True"
    if hyp: "fst (run_steps E (steps pl)
          (initialize_hdo_execution (s\<lparr>current_plan := pl, current_hdo := h\<rparr>))) = Returned ()"
  proof -
    from run_altitude_plan_returns[OF hyp]
    obtain s' where a: "run_altitude_plan E pl h s = (Returned (current_hdo s'), s')" by blast
    note f = run_altitude_plan_log(2)[OF a refl]
    from f obtain s1 where l: "the_log s' = the_log s1 @ [complete_entry s1]" by blast
    have v: "entry_view (last (the_log s')) =
        (''orchestra-runner'', ''complete_orchestration'', ''completed'')"
      unfolding l by (simp add: entry_view_def complete_entry_def)
    have n: "the_log s' \<noteq> []" unfolding l by simp
    show ?thesis using a f v n by simp
  qed
  have c1: "process_id sample_hdo = ''PROC-demo-20250101-120000-001''"
    by (simp add: sample_hdo_def)
  have c2: "hdo_log sample_state sample_hdo = []"
    by (simp add: hdo_log_def sample_hdo_def sample_state_def)
  have c3: "map (\<lambda>st. (step_id st, agent_id st, action st)) (steps two_step_plan) =
     [(''s1'', ''input-mapper'', ''map''), (''s2'', ''input-validator'', ''validate'')]"
    by (simp add: two_step_plan_def plain_step_def)
  have c4: "(case run_altitude_plan sample_env two_step_plan sample_hdo sample_state of
      (Returned hf, s') \<Rightarrow>
        (stage hf, validated hf,
         map (\<lambda>e. (entry_view e, dict_get (details e) ''step_id'' JNone)) (hdo_log s' hf))
    | (Raised e, s') \<Rightarrow> (None, None, [])) =
   (Some ''output'', Some True,
    [((''orchestra-runner'', ''start_orchestration'', ''started''), JNone),
     ((''input-mapper'', ''map'', ''started''), JStr ''s1''),
     ((''input-mapper'', ''map'', ''completed''), JStr ''s1''),
     ((''input-validator'', ''validate'', ''started''), JStr ''s2''),
     ((''input-validator'', ''validate'', ''completed''), JStr ''s2''),
     ((''orchestra-runner'', ''complete_orchestration'', ''completed''), JNone)])"
    by code_simp
  show ?thesis using g c1 c2 c3 c4 by blast
qed

lemma two_steps_return:
  "fst (run_steps sample_env (steps two_step_plan)
          (initialize_hdo_execution
             (sample_state\<lparr>current_plan := two_step_plan, current_hdo := sample_hdo\<rparr>))) =
   Returned ()"
  by code_simp

theorem successful_run_completes_witness:
  "fst (run_steps sample_env (steps two_step_plan)
          (initialize_hdo_execution
             (sample_state\<lparr>current_plan := two_step_plan, current_hdo := sample_hdo\<rparr>))) =
     Returned () \<and>
   entry_view (last (the_log (snd (run_altitude_plan sample_env two_step_plan sample_hdo sample_state)))) =
     (''orchestra-runner'', ''complete_orchestration'', ''completed'') \<and>
   stage (current_hdo (snd (run_altitude_plan sample_env two_step_plan sample_hdo sample_state))) =
     Some ''output'' \<and>
   validated (current_hdo (snd (run_altitude_plan sample_env two_step_plan sample_hdo sample_state))) =
     Some True"
  using successful_run_completes [where E = sample_env and pl = two_step_plan
      and s = sample_state and h = sample_hdo]
    two_steps_return
  by blast

section \<open>The promotion condition\<close>

text \<open>
  A plan in which the enforcer runs first and a second step is conditional on its promotion
  decision.
\<close>

definition promotion_step :: step where
  "promotion_step =
     (plain_step ''s2'' ''output-reporter'' ''report'')
       \<lparr>when_config := Some \<lparr>condition = Some ''conditional'', depends_on = None,
                                expression = Some ''enforcer.promotion_decision == true''\<rparr>\<rparr>"

definition promotion_plan :: plan where
  "promotion_plan =
     \<lparr>plan_id = ''plan-1'', version = ''1.0.0'',
      steps = [plain_step ''s1'' ''middle-subagent-enforcer'' ''enforce'', promotion_step]\<rparr>"

text \<open>
  Claim C10. The details of a \<^verbatim>\<open>completed\<close> entry of the step executor have the keys
  \<^verbatim>\<open>step_id\<close>, \<^verbatim>\<open>altitude\<close> and \<^verbatim>\<open>result_summary\<close> and no \<^verbatim>\<open>promotion_decision\<close>. The
  promotion check is true only when the log has a \<^verbatim>\<open>completed\<close> entry of the agent
  \<^verbatim>\<open>middle-subagent-enforcer\<close> whose details carry a \<^verbatim>\<open>promotion_decision\<close> that is not
  \<^verbatim>\<open>None\<close>. No entry the runner writes has one: a log without promotion decisions stays so
  through the initialisation, every step, the loop over the steps and the whole invocation.
  Over such a log the expression containing \<^verbatim>\<open>enforcer.promotion_decision == true\<close> is false,
  and a step whose condition is \<^verbatim>\<open>conditional\<close> with that expression is not executed:
  \<^verbatim>\<open>_execute_step\<close> only records it as skipped.
\<close>

theorem promotion_condition_never_holds:
  "map fst (details (completed_entry E st t d res)) = [''step_id'', ''altitude'', ''result_summary''] \<and>
   no_decision (completed_entry E st t d res) \<and>
   (truthy (check_promotion_decision s) \<longrightarrow>
      (\<exists>e \<in> set (the_log s). entry_agent_id e = ''middle-subagent-enforcer'' \<and>
         status e = ''completed'' \<and>
         dict_get (details e) ''promotion_decision'' JNone \<noteq> JNone)) \<and>
   (no_promotion s \<longrightarrow>
      no_promotion (initialize_hdo_execution s) \<and>
      no_promotion (snd (execute_step E st s)) \<and>
      no_promotion (snd (run_steps E sts s))) \<and>
   (list_all no_decision (hdo_log s h) \<longrightarrow> no_promotion (snd (run_altitude_plan E pl h s))) \<and>
   (no_promotion s \<and> when_config cst = Some w \<and> condition w = Some ''conditional'' \<and>
    expression w = Some expr \<and> py_in ''enforcer.promotion_decision == true'' expr \<longrightarrow>
      \<not> evaluate_condition_expression expr s \<and> \<not> should_execute_step cst s \<and>
      execute_step E cst s = record_step_skipped cst s)"
proof -
  have c1: "map fst (details (completed_entry E st t d res)) =
      [''step_id'', ''altitude'', ''result_summary'']"
    by (simp add: completed_entry_def)
  have c2: "no_decision (completed_entry E st t d res)"
    by (rule runner_entries_no_decision(3))
  have c3: "truthy (check_promotion_decision s) \<longrightarrow>
      (\<exists>e \<in> set (the_log s). entry_agent_id e = ''middle-subagent-enforcer'' \<and>
         status e = ''completed'' \<and>
         dict_get (details e) ''promotion_decision'' JNone \<noteq> JNone)"
    using check_promotion_needs_entry[of s] by (simp add: is_promotion_entry_def)
  have c4: "no_promotion s \<longrightarrow>
      no_promotion (initialize_hdo_execution s) \<and>
      no_promotion (snd (execute_step E st s)) \<and>
      no_promotion (snd (run_steps E sts s))"
    using initialize_no_promotion[of s] execute_step_no_promotion[of s E st]
      run_steps_no_promotion[of s E sts] by blast
  have c5: "list_all no_decision (hdo_log s h) \<longrightarrow>
      no_promotion (snd (run_altitude_plan E pl h s))"
    using run_altitude_plan_no_promotion[of s h E pl] by blast
  have c6: "no_promotion s \<and> when_config cst = Some w \<and> condition w = Some ''conditional'' \<and>
    expression w = Some expr \<and> py_in ''enforcer.promotion_decision == true'' expr \<longrightarrow>
      \<not> evaluate_condition_expression expr s \<and> \<not> should_execute_step cst s \<and>
      execute_step E cst s = record_step_skipped cst s"
  proof
    assume a: "no_promotion s \<and> when_config cst = Some w \<and>
      condition w = Some ''conditional'' \<and> expression w = Some expr \<and>
      py_in ''enforcer.promotion_decision == true'' expr"
    then have h1: "no_promotion s" and h2: "when_config cst = Some w"
      and h3: "condition w = Some ''conditional''" and h4: "expression w = Some expr"
      and h5: "py_in ''enforcer.promotion_decision == true'' expr" by simp_all
    show "\<not> evaluate_condition_expression expr s \<and> \<not> should_execute_step cst s \<and>
      execute_step E cst s = record_step_skipped cst s"
      using conditional_step_skipped(1)[OF h1 h2 h3 h4 h5]
        conditional_step_skipped(2)[OF h1 h2 h3 h4 h5]
        conditional_step_skipped(3)[OF h1 h2 h3 h4 h5, of E] by simp
  qed
  show ?thesis using c1 c2 c3 c4 c5 c6 by blast
qed

lemma promotion_plan_run:
  "no_promotion (snd (execute_step sample_env (plain_step ''s1'' ''middle-subagent-enforcer'' ''enforce'')
      (initialize_hdo_execution (sample_state\<lparr>current_plan := promotion_plan\<rparr>))))"
  "when_config promotion_step =
     Some \<lparr>condition = Some ''conditional'', depends_on = None,
           expression = Some ''enforcer.promotion_decision == true''\<rparr>"
  "py_in ''enforcer.promotion_decision == true'' ''enforcer.promotion_decision == true''"
  "map entry_view (the_log (snd (record_step_skipped promotion_step
     (snd (execute_step sample_env (plain_step ''s1'' ''middle-subagent-enforcer'' ''enforce'')
        (initialize_hdo_execution (sample_state\<lparr>current_plan := promotion_plan\<rparr>))))))) =
   [(''orchestra-runner'', ''start_orchestration'', ''started''),
    (''middle-subagent-enforcer'', ''enforce'', ''started''),
    (''middle-subagent-enforcer'', ''enforce'', ''completed''),
    (''output-reporter'', ''report'', ''skipped'')]"
  by code_simp+

theorem promotion_condition_never_holds_witness:
  "no_promotion (snd (execute_step sample_env (plain_step ''s1'' ''middle-subagent-enforcer'' ''enforce'')
      (initialize_hdo_execution (sample_state\<lparr>current_plan := promotion_plan\<rparr>)))) \<and>
   map entry_view (the_log (snd (execute_step sample_env promotion_step
     (snd (execute_step sample_env (plain_step ''s1'' ''middle-subagent-enforcer'' ''enforce'')
        (initialize_hdo_execution (sample_state\<lparr>current_plan := promotion_plan\<rparr>))))))) =
   [(''orchestra-runner'', ''start_orchestration'', ''started''),
    (''middle-subagent-enforcer'', ''enforce'', ''started''),
    (''middle-subagent-enforcer'', ''enforce'', ''completed''),
    (''output-reporter'', ''report'', ''skipped'')]"
proof -
  let ?s = "snd (execute_step sample_env (plain_step ''s1'' ''middle-subagent-enforcer'' ''enforce'')
      (initialize_hdo_execution (sample_state\<lparr>current_plan := promotion_plan\<rparr>)))"
  have "execute_step sample_env promotion_step ?s = record_step_skipped promotion_step ?s"
    using promotion_condition_never_holds [where s = ?s and cst = promotion_step
        and E = sample_env
        and w = "\<lparr>condition = Some ''conditional'', depends_on = None,
                   expression = Some ''enforcer.promotion_decision == true''\<rparr>"
        and expr = "''enforcer.promotion_decision == true''"]
      promotion_plan_run(1,2,3)
    by simp
  then show ?thesis using promotion_plan_run(1,4) by simp
qed

section \<open>Error records\<close>








end
